theory Spec2Isabelle
  imports Complex_Main "HOL-Library.AList"
begin

section \<open>Data model of the health checker\<close>

text \<open>
  The embedding follows package \<open>health\<close> (the checker), the configuration accessors of
  package \<open>config\<close> it calls, and \<open>GetStatus\<close> of package \<open>switchgate\<close>.

  Conventions. The \<open>float64\<close> fields of a status are read as real numbers. The checker
  copies these values, scales them (the model rounds the result, with the rounding of the
  platform) and compares them with constants, where a NaN, for which every comparison is
  false, acts as 0 does. The argument of \<open>FormatProgressBar\<close> is a \<open>float64\<close> in
  full, NaN and infinities included. A \<open>time.Duration\<close> and a \<open>time.Time\<close> are
  integers counting nanoseconds (a time counts from Go's zero time).
  A Go \<open>error\<close> is its message text; a function returning \<open>(v, error)\<close> returns a
  sum with the message on the left. A Go map read only by key is an association list with
  \<open>map_of\<close> as lookup; the map of upstreams, which the code iterates, is an association
  list whose order stands for the iteration order of that run.
\<close>

type_synonym float64 = real
type_synonym Duration = int
type_synonym Time = int
type_synonym StatusLevel = string

record ServiceConfig =
  Name_sc :: string
  Job_sc :: string
  Port_sc :: int

record ServerConfig =
  ID_cfg :: string
  Name_cfg :: string
  Icon_cfg :: string
  IP_cfg :: string
  PrometheusInstance :: string
  ExternalCheck :: string
  Services_cfg :: "ServiceConfig list"

record CloudConfig =
  Name_cloud :: string
  Icon_cloud :: string
  Servers :: "ServerConfig list"

record Upstream =
  Name_up :: string
  IP_up :: string
  User_up :: string
  SwitchGate :: bool
  SwitchGatePort :: int

text \<open>Of \<open>config.Config\<close> the checker reads \<open>Upstreams\<close> and \<open>Infrastructure.Clouds\<close>.\<close>

record Config =
  Upstreams :: "(string \<times> Upstream) list"
  Clouds :: "CloudConfig list"

record ServiceStatus =
  Name_svc :: string
  Job_svc :: string
  Port_svc :: int
  IsUp_svc :: bool
  Error_svc :: string

record ServerStatus =
  ID :: string
  Name :: string
  Icon :: string
  CloudName :: string
  CloudIcon :: string
  IP :: string
  IsUp :: bool
  CPU :: float64
  Memory :: float64
  Disk :: float64
  MemoryUsedGB :: float64
  MemoryTotalGB :: float64
  DiskUsedGB :: float64
  DiskTotalGB :: float64
  Uptime :: Duration
  ExternalAccess :: bool
  ExternalLatency :: Duration
  ExternalError :: string
  Services :: "ServiceStatus list"

definition StatusUp :: StatusLevel where
  "StatusUp = ''up''"

definition StatusDegraded :: StatusLevel where
  "StatusDegraded = ''degraded''"

definition StatusDown :: StatusLevel where
  "StatusDown = ''down''"

section \<open>Status level\<close>

text \<open>The loop of \<open>GetStatusLevel\<close> over the services, returning at the first one down.\<close>

fun services_level :: "ServiceStatus list \<Rightarrow> StatusLevel" where
  "services_level [] = StatusUp"
| "services_level (svc # rest) =
     (if \<not> IsUp_svc svc then StatusDegraded else services_level rest)"

definition GetStatusLevel :: "ServerStatus \<Rightarrow> StatusLevel" where
  "GetStatusLevel s =
     (if \<not> IsUp s then StatusDown
      else if CPU s > 80 \<or> Memory s > 85 \<or> Disk s > 85 then StatusDegraded
      else services_level (Services s))"

section \<open>Configuration accessors\<close>

text \<open>The inner loop shared by \<open>GetServer\<close> and \<open>GetServerCloud\<close>: first server with the ID.\<close>

fun find_server :: "ServerConfig list \<Rightarrow> string \<Rightarrow> ServerConfig option" where
  "find_server [] serverID = None"
| "find_server (s # rest) serverID =
     (if ID_cfg s = serverID then Some s else find_server rest serverID)"

fun GetServer_clouds :: "CloudConfig list \<Rightarrow> string \<Rightarrow> ServerConfig option" where
  "GetServer_clouds [] serverID = None"
| "GetServer_clouds (cloud # rest) serverID =
     (case find_server (Servers cloud) serverID of
        Some s \<Rightarrow> Some s
      | None \<Rightarrow> GetServer_clouds rest serverID)"

definition GetServer :: "Config \<Rightarrow> string \<Rightarrow> ServerConfig option" where
  "GetServer cfg serverID = GetServer_clouds (Clouds cfg) serverID"

fun GetServerCloud_clouds :: "CloudConfig list \<Rightarrow> string \<Rightarrow> string" where
  "GetServerCloud_clouds [] serverID = []"
| "GetServerCloud_clouds (cloud # rest) serverID =
     (case find_server (Servers cloud) serverID of
        Some s \<Rightarrow> Name_cloud cloud
      | None \<Rightarrow> GetServerCloud_clouds rest serverID)"

definition GetServerCloud :: "Config \<Rightarrow> string \<Rightarrow> string" where
  "GetServerCloud cfg serverID = GetServerCloud_clouds (Clouds cfg) serverID"

fun GetAllServers_clouds :: "CloudConfig list \<Rightarrow> ServerConfig list" where
  "GetAllServers_clouds [] = []"
| "GetAllServers_clouds (cloud # rest) = Servers cloud @ GetAllServers_clouds rest"

definition GetAllServers :: "Config \<Rightarrow> ServerConfig list" where
  "GetAllServers cfg = GetAllServers_clouds (Clouds cfg)"

fun GetUpstreamByIP_loop :: "(string \<times> Upstream) list \<Rightarrow> string \<Rightarrow> string" where
  "GetUpstreamByIP_loop [] ip = []"
| "GetUpstreamByIP_loop ((key, u) # rest) ip =
     (if IP_up u = ip then key else GetUpstreamByIP_loop rest ip)"

definition GetUpstreamByIP :: "Config \<Rightarrow> string \<Rightarrow> string" where
  "GetUpstreamByIP cfg ip = GetUpstreamByIP_loop (Upstreams cfg) ip"

fun IsSwitchGateServer_loop :: "(string \<times> Upstream) list \<Rightarrow> string \<Rightarrow> bool" where
  "IsSwitchGateServer_loop [] ip = False"
| "IsSwitchGateServer_loop ((key, u) # rest) ip =
     (if IP_up u = ip \<and> SwitchGate u then True else IsSwitchGateServer_loop rest ip)"

definition IsSwitchGateServer :: "Config \<Rightarrow> string \<Rightarrow> bool" where
  "IsSwitchGateServer cfg ip = IsSwitchGateServer_loop (Upstreams cfg) ip"

section \<open>Floating point and the platform\<close>

text \<open>
  What Go leaves to the machine and the runtime: \<open>round64\<close> rounds the exact result of
  a floating-point operation to a \<open>float64\<close>; \<open>int_indefinite\<close> is the result of
  converting to \<open>int\<close> a \<open>float64\<close> that no \<open>int\<close> represents (a NaN, an infinity, a
  value out of range), which Go calls implementation-dependent; \<open>maxAlloc\<close> is the
  length in bytes of the longest string the runtime can allocate.
\<close>

datatype float64_val = NaN | NegInf | Finite real | PosInf

record Platform =
  round64 :: "real \<Rightarrow> real"
  int_indefinite :: "float64_val \<Rightarrow> int"
  maxAlloc :: int

section \<open>The outside world\<close>

text \<open>
  Everything the checker learns over the network is an answer of a \<open>Net\<close>: the methods of
  the Prometheus client, the SSH transport under \<open>switchgate.Client.exec\<close>, the node-metrics
  call of the switch-gate client, the HTTP and TCP probes, and the two library parsers
  applied to remote text. It also names the platform the check runs on. A \<open>World\<close> gives the \<open>Net\<close> seen by the n-th per-server check
  of a checker, so that two checks of one server may see different answers.
\<close>

record Client =
  name_sg :: string
  jumpHost :: string
  targetIP :: string
  user_sg :: string
  keyPath :: string
  apiPort :: int

text \<open>Of \<open>switchgate.Status\<close> the checker reads \<open>Uptime\<close> only.\<close>

record Status =
  Mode :: string
  Uptime_sg :: string
  Connections :: int

record NodeMetrics =
  MemoryUsedPercent :: float64
  MemoryUsedBytes :: float64
  MemoryTotalBytes :: float64
  DiskUsedPercent :: float64
  DiskUsedBytes :: float64
  DiskTotalBytes :: float64
  Load1 :: float64

text \<open>The five places where \<open>exec\<close> can fail, each with the text of the underlying error, or the standard output.\<close>

datatype exec_outcome =
    DialJumpFailed string
  | DialTargetFailed string
  | ClientConnFailed string
  | NewSessionFailed string
  | RunFailed string string
  | Ran string

datatype http_outcome =
    InvalidURL string
  | DoFailed string Duration
  | Response int Duration

record Net =
  prom_IsUp :: "string \<Rightarrow> string + bool"
  prom_GetCPU :: "string \<Rightarrow> string + float64"
  prom_GetMemory :: "string \<Rightarrow> string + float64"
  prom_GetMemoryBytes :: "string \<Rightarrow> string + (float64 \<times> float64)"
  prom_GetDisk :: "string \<Rightarrow> string + float64"
  prom_GetDiskBytes :: "string \<Rightarrow> string + (float64 \<times> float64)"
  prom_GetUptime :: "string \<Rightarrow> string + Duration"
  prom_IsServiceUp :: "string \<Rightarrow> string \<Rightarrow> string + bool"
  ssh_run :: "Client \<Rightarrow> string \<Rightarrow> exec_outcome"
  json_Unmarshal :: "string \<Rightarrow> string + Status"
  GetNodeMetrics :: "Client \<Rightarrow> string + NodeMetrics"
  ParseDuration :: "string \<Rightarrow> string + Duration"
  http_Do :: "string \<Rightarrow> http_outcome"
  net_DialTimeout :: "string \<Rightarrow> string option \<times> Duration"
  platform :: Platform

type_synonym World = "nat \<Rightarrow> Net"

section \<open>The switch-gate client\<close>

text \<open>Decimal text of an integer, as \<open>%d\<close> prints it.\<close>

fun digits :: "nat \<Rightarrow> string" where
  "digits n =
     (if n < 10 then [char_of (48 + n)]
      else digits (n div 10) @ [char_of (48 + n mod 10)])"

declare digits.simps [simp del]

definition itoa :: "int \<Rightarrow> string" where
  "itoa i = (if i < 0 then CHR ''-'' # digits (nat (- i)) else digits (nat i))"

definition exec :: "Net \<Rightarrow> Client \<Rightarrow> string \<Rightarrow> string + string" where
  "exec net cl cmd =
     (case ssh_run net cl cmd of
        DialJumpFailed e \<Rightarrow> Inl (''dial jump host: '' @ e)
      | DialTargetFailed e \<Rightarrow> Inl (''dial target via jump: '' @ e)
      | ClientConnFailed e \<Rightarrow> Inl (''ssh client conn: '' @ e)
      | NewSessionFailed e \<Rightarrow> Inl (''new session: '' @ e)
      | RunFailed e stderr \<Rightarrow> Inl (''run command: '' @ e @ '' (stderr: '' @ stderr @ '')'')
      | Ran stdout \<Rightarrow> Inr stdout)"

definition GetStatus :: "Net \<Rightarrow> Client \<Rightarrow> string + Status" where
  "GetStatus net cl =
     (case exec net cl (''curl -s http://127.0.0.1:'' @ itoa (apiPort cl) @ ''/status'') of
        Inl err \<Rightarrow> Inl err
      | Inr output \<Rightarrow>
          (case json_Unmarshal net output of
             Inl err \<Rightarrow> Inl (''parse status: '' @ err)
           | Inr status \<Rightarrow> Inr status))"

section \<open>The checker\<close>

text \<open>
  The struct \<open>Checker\<close>. Its Prometheus and HTTP clients are part of the \<open>Net\<close>.
  The field \<open>probes\<close> is not in the source: it records, oldest first, the ID of every
  server on which \<open>checkServer\<close> has run, and selects the \<open>Net\<close> of the next run.
\<close>

record Checker =
  config :: Config
  switchGateClients :: "(string \<times> Client) list"
  cache :: "(string \<times> ServerStatus) list"
  cacheTime :: Time
  cacheTTL :: Duration
  probes :: "string list"

definition Second :: Duration where
  "Second = 1000000000"

definition DefaultCacheTTL :: Duration where
  "DefaultCacheTTL = 60 * Second"

definition NewChecker :: "Config \<Rightarrow> (string \<times> Client) list \<Rightarrow> Checker" where
  "NewChecker cfg sgClients =
     \<lparr>config = cfg, switchGateClients = sgClients, cache = [], cacheTime = 0,
      cacheTTL = DefaultCacheTTL, probes = []\<rparr>"

subsection \<open>External accessibility\<close>

definition HasPrefix :: "string \<Rightarrow> string \<Rightarrow> bool" where
  "HasPrefix s prefix = (take (length prefix) s = prefix)"

definition TrimPrefix :: "string \<Rightarrow> string \<Rightarrow> string" where
  "TrimPrefix s prefix = (if HasPrefix s prefix then drop (length prefix) s else s)"

definition checkHTTP :: "Net \<Rightarrow> string \<Rightarrow> bool \<times> Duration \<times> string option" where
  "checkHTTP net url =
     (case http_Do net url of
        InvalidURL e \<Rightarrow> (False, 0, Some (''invalid URL: '' @ e))
      | DoFailed e latency \<Rightarrow> (False, latency, Some (''connection failed: '' @ e))
      | Response code latency \<Rightarrow>
          (if 200 \<le> code \<and> code < 400 then (True, latency, None)
           else (False, latency, Some (''HTTP '' @ itoa code))))"

definition checkTCP :: "Net \<Rightarrow> string \<Rightarrow> bool \<times> Duration \<times> string option" where
  "checkTCP net addr =
     (case net_DialTimeout net addr of
        (Some e, latency) \<Rightarrow> (False, latency, Some (''connection failed: '' @ e))
      | (None, latency) \<Rightarrow> (True, latency, None))"

definition checkExternal :: "Net \<Rightarrow> string \<Rightarrow> bool \<times> Duration \<times> string option" where
  "checkExternal net checkURL =
     (if HasPrefix checkURL ''tcp://'' then checkTCP net (TrimPrefix checkURL ''tcp://'')
      else checkHTTP net checkURL)"

subsection \<open>The Prometheus path\<close>

definition GiB :: float64 where
  "GiB = 1024 * 1024 * 1024"

text \<open>The body of \<open>if status.IsUp\<close>: a failed query leaves its fields as they are.\<close>

definition prometheus_metrics :: "Net \<Rightarrow> string \<Rightarrow> ServerStatus \<Rightarrow> ServerStatus" where
  "prometheus_metrics net promInstance status =
     (let s1 = (case prom_GetCPU net promInstance of
                  Inr cpu \<Rightarrow> status\<lparr>CPU := cpu\<rparr> | Inl err \<Rightarrow> status);
          s2 = (case prom_GetMemory net promInstance of
                  Inr mem \<Rightarrow> s1\<lparr>Memory := mem\<rparr> | Inl err \<Rightarrow> s1);
          s3 = (case prom_GetMemoryBytes net promInstance of
                  Inr (used, totl) \<Rightarrow>
                    s2\<lparr>MemoryUsedGB := round64 (platform net) (used / GiB),
                       MemoryTotalGB := round64 (platform net) (totl / GiB)\<rparr>
                | Inl err \<Rightarrow> s2);
          s4 = (case prom_GetDisk net promInstance of
                  Inr disk \<Rightarrow> s3\<lparr>Disk := disk\<rparr> | Inl err \<Rightarrow> s3);
          s5 = (case prom_GetDiskBytes net promInstance of
                  Inr (used, totl) \<Rightarrow>
                    s4\<lparr>DiskUsedGB := round64 (platform net) (used / GiB),
                       DiskTotalGB := round64 (platform net) (totl / GiB)\<rparr>
                | Inl err \<Rightarrow> s4)
      in (case prom_GetUptime net promInstance of
            Inr uptime \<Rightarrow> s5\<lparr>Uptime := uptime\<rparr> | Inl err \<Rightarrow> s5))"

fun prometheus_services ::
  "Net \<Rightarrow> string \<Rightarrow> ServerStatus \<Rightarrow> ServiceConfig list \<Rightarrow> ServerStatus" where
  "prometheus_services net promInstance status [] = status"
| "prometheus_services net promInstance status (svc # rest) =
     (let svcStatus =
            (if Job_sc svc \<noteq> [] then
               (case prom_IsServiceUp net (Job_sc svc) promInstance of
                  Inr isUp \<Rightarrow>
                    \<lparr>Name_svc = Name_sc svc, Job_svc = Job_sc svc, Port_svc = Port_sc svc,
                     IsUp_svc = isUp, Error_svc = []\<rparr>
                | Inl err \<Rightarrow>
                    \<lparr>Name_svc = Name_sc svc, Job_svc = Job_sc svc, Port_svc = Port_sc svc,
                     IsUp_svc = False, Error_svc = err\<rparr>)
             else
               \<lparr>Name_svc = Name_sc svc, Job_svc = Job_sc svc, Port_svc = Port_sc svc,
                IsUp_svc = IsUp status, Error_svc = []\<rparr>)
      in prometheus_services net promInstance
           (status\<lparr>Services := Services status @ [svcStatus]\<rparr>) rest)"

definition checkPrometheusServer :: "Net \<Rightarrow> ServerStatus \<Rightarrow> ServerConfig \<Rightarrow> ServerStatus" where
  "checkPrometheusServer net status server =
     (let promInstance =
            (if PrometheusInstance server = [] then Name_cfg server
             else PrometheusInstance server);
          s1 = (case prom_IsUp net promInstance of
                  Inl err \<Rightarrow> status\<lparr>IsUp := False\<rparr>
                | Inr isUp \<Rightarrow> status\<lparr>IsUp := isUp\<rparr>);
          s2 = (if IsUp s1 then prometheus_metrics net promInstance s1 else s1)
      in prometheus_services net promInstance s2 (Services_cfg server))"

subsection \<open>The switch-gate path\<close>

definition node_metrics :: "Platform \<Rightarrow> NodeMetrics \<Rightarrow> ServerStatus \<Rightarrow> ServerStatus" where
  "node_metrics pl nodeMetrics status =
     (let s1 = status\<lparr>Memory := MemoryUsedPercent nodeMetrics,
                       MemoryUsedGB := round64 pl (MemoryUsedBytes nodeMetrics / GiB),
                       MemoryTotalGB := round64 pl (MemoryTotalBytes nodeMetrics / GiB),
                       Disk := DiskUsedPercent nodeMetrics,
                       DiskUsedGB := round64 pl (DiskUsedBytes nodeMetrics / GiB),
                       DiskTotalGB := round64 pl (DiskTotalBytes nodeMetrics / GiB),
                       CPU := round64 pl (Load1 nodeMetrics * 100)\<rparr>
      in (if CPU s1 > 100 then s1\<lparr>CPU := 100\<rparr> else s1))"

fun switchgate_services :: "ServerStatus \<Rightarrow> ServiceConfig list \<Rightarrow> ServerStatus" where
  "switchgate_services status [] = status"
| "switchgate_services status (svc # rest) =
     (let svcStatus =
            \<lparr>Name_svc = Name_sc svc, Job_svc = [], Port_svc = Port_sc svc,
             IsUp_svc =
               (if Name_sc svc = ''switch-gate'' then True
                else if Name_sc svc = ''gost'' then True
                else if Name_sc svc = ''node_exporter'' then Memory status > 0
                else True),
             Error_svc = []\<rparr>
      in switchgate_services (status\<lparr>Services := Services status @ [svcStatus]\<rparr>) rest)"

definition checkSwitchGateServer ::
  "Checker \<Rightarrow> Net \<Rightarrow> ServerStatus \<Rightarrow> ServerConfig \<Rightarrow> string \<Rightarrow> ServerStatus" where
  "checkSwitchGateServer c net status server upstreamKey =
     (case map_of (switchGateClients c) upstreamKey of
        None \<Rightarrow> status\<lparr>IsUp := False\<rparr>
      | Some sgClient \<Rightarrow>
          (case GetStatus net sgClient of
             Inl err \<Rightarrow>
               status\<lparr>IsUp := False,
                       Services := Services status @
                         [\<lparr>Name_svc = ''switch-gate'', Job_svc = [], Port_svc = 9090,
                           IsUp_svc = False, Error_svc = err\<rparr>]\<rparr>
           | Inr sgStatus \<Rightarrow>
               (let s1 = status\<lparr>IsUp := True\<rparr>;
                    s2 = (if Uptime_sg sgStatus \<noteq> [] then
                            (case ParseDuration net (Uptime_sg sgStatus) of
                               Inr uptime \<Rightarrow> s1\<lparr>Uptime := uptime\<rparr>
                             | Inl err \<Rightarrow> s1)
                          else s1);
                    s3 = (case GetNodeMetrics net sgClient of
                            Inr nodeMetrics \<Rightarrow> node_metrics (platform net) nodeMetrics s2
                          | Inl err \<Rightarrow> s2)
                in switchgate_services s3 (Services_cfg server))))"

subsection \<open>One server\<close>

definition new_status :: "ServerConfig \<Rightarrow> string \<Rightarrow> string \<Rightarrow> ServerStatus" where
  "new_status server cloudName cloudIcon =
     \<lparr>ID = ID_cfg server, Name = Name_cfg server, Icon = Icon_cfg server,
      CloudName = cloudName, CloudIcon = cloudIcon, IP = IP_cfg server,
      IsUp = False, CPU = 0, Memory = 0, Disk = 0,
      MemoryUsedGB = 0, MemoryTotalGB = 0, DiskUsedGB = 0, DiskTotalGB = 0,
      Uptime = 0, ExternalAccess = False, ExternalLatency = 0, ExternalError = [],
      Services = []\<rparr>"

definition probe_server ::
  "Checker \<Rightarrow> Net \<Rightarrow> ServerConfig \<Rightarrow> string \<Rightarrow> string \<Rightarrow> ServerStatus" where
  "probe_server c net server cloudName cloudIcon =
     (let status = new_status server cloudName cloudIcon;
          upstreamKey = GetUpstreamByIP (config c) (IP_cfg server);
          s1 = (if upstreamKey \<noteq> [] \<and> IsSwitchGateServer (config c) (IP_cfg server)
                then checkSwitchGateServer c net status server upstreamKey
                else checkPrometheusServer net status server)
      in (if ExternalCheck server \<noteq> [] then
            (case checkExternal net (ExternalCheck server) of
               (accessible, latency, err) \<Rightarrow>
                 (let s2 = s1\<lparr>ExternalAccess := accessible, ExternalLatency := latency\<rparr>
                  in (case err of Some e \<Rightarrow> s2\<lparr>ExternalError := e\<rparr> | None \<Rightarrow> s2)))
          else s1\<lparr>ExternalAccess := IsUp s1\<rparr>))"

text \<open>
  \<open>checkServer\<close>: the body above on the \<open>Net\<close> of this run, and the run recorded.
\<close>

definition checkServer ::
  "Checker \<Rightarrow> World \<Rightarrow> ServerConfig \<Rightarrow> string \<Rightarrow> string \<Rightarrow> ServerStatus \<times> Checker" where
  "checkServer c w server cloudName cloudIcon =
     (probe_server c (w (length (probes c))) server cloudName cloudIcon,
      c\<lparr>probes := probes c @ [ID_cfg server]\<rparr>)"

subsection \<open>The cache\<close>

definition maxDuration :: Duration where
  "maxDuration = 2 ^ 63 - 1"

definition minDuration :: Duration where
  "minDuration = - (2 ^ 63)"

text \<open>\<open>Time.Sub\<close> saturates at the ends of the range of a \<open>Duration\<close>.\<close>

definition Sub :: "Time \<Rightarrow> Time \<Rightarrow> Duration" where
  "Sub t u =
     (let d = t - u
      in if d > maxDuration then maxDuration
         else if d < minDuration then minDuration
         else d)"

text \<open>\<open>time.Since(t)\<close> when the clock reads \<open>now\<close>.\<close>

definition Since :: "Time \<Rightarrow> Time \<Rightarrow> Duration" where
  "Since now t = Sub now t"

definition isCacheValid :: "Checker \<Rightarrow> Time \<Rightarrow> bool" where
  "isCacheValid c now =
     (if length (cache c) = 0 then False
      else Since now (cacheTime c) < cacheTTL c)"

fun cached_servers ::
  "(string \<times> ServerStatus) list \<Rightarrow> ServerConfig list \<Rightarrow> ServerStatus list \<Rightarrow> ServerStatus list" where
  "cached_servers ch [] statuses = statuses"
| "cached_servers ch (server # rest) statuses =
     (case map_of ch (ID_cfg server) of
        Some status \<Rightarrow> cached_servers ch rest (statuses @ [status])
      | None \<Rightarrow> cached_servers ch rest statuses)"

fun cached_clouds ::
  "(string \<times> ServerStatus) list \<Rightarrow> CloudConfig list \<Rightarrow> ServerStatus list \<Rightarrow> ServerStatus list" where
  "cached_clouds ch [] statuses = statuses"
| "cached_clouds ch (cloud # rest) statuses =
     cached_clouds ch rest (cached_servers ch (Servers cloud) statuses)"

definition getCachedStatuses :: "Checker \<Rightarrow> ServerStatus list" where
  "getCachedStatuses c = cached_clouds (cache c) (Clouds (config c)) []"

definition InvalidateCache :: "Checker \<Rightarrow> Checker" where
  "InvalidateCache c = c\<lparr>cache := [], cacheTime := 0\<rparr>"

subsection \<open>Checking all servers\<close>

text \<open>The two loops of \<open>refreshAll\<close>, on the pair of the list built so far and the checker.\<close>

fun refresh_servers ::
  "World \<Rightarrow> string \<Rightarrow> string \<Rightarrow> ServerConfig list \<Rightarrow> ServerStatus list \<times> Checker
     \<Rightarrow> ServerStatus list \<times> Checker" where
  "refresh_servers w cloudName cloudIcon [] (statuses, c) = (statuses, c)"
| "refresh_servers w cloudName cloudIcon (server # rest) (statuses, c) =
     (case checkServer c w server cloudName cloudIcon of
        (status, c1) \<Rightarrow>
          refresh_servers w cloudName cloudIcon rest
            (statuses @ [status],
             c1\<lparr>cache := AList.update (ID_cfg server) status (cache c1)\<rparr>))"

fun refresh_clouds ::
  "World \<Rightarrow> CloudConfig list \<Rightarrow> ServerStatus list \<times> Checker \<Rightarrow> ServerStatus list \<times> Checker" where
  "refresh_clouds w [] acc = acc"
| "refresh_clouds w (cloud # rest) acc =
     refresh_clouds w rest
       (refresh_servers w (Name_cloud cloud) (Icon_cloud cloud) (Servers cloud) acc)"

text \<open>
  The operations return the Go result (the error text or the value) and the checker
  after the call. \<open>now\<close> is the clock read by \<open>isCacheValid\<close>, \<open>fin\<close> the clock read
  by \<open>refreshAll\<close> after its loops.
\<close>

definition refreshAll ::
  "Checker \<Rightarrow> World \<Rightarrow> Time \<Rightarrow> (string + ServerStatus list) \<times> Checker" where
  "refreshAll c w fin =
     (case refresh_clouds w (Clouds (config c)) ([], c) of
        (statuses, c1) \<Rightarrow> (Inr statuses, c1\<lparr>cacheTime := fin\<rparr>))"

definition CheckAll ::
  "Checker \<Rightarrow> World \<Rightarrow> Time \<Rightarrow> Time \<Rightarrow> (string + ServerStatus list) \<times> Checker" where
  "CheckAll c w now fin =
     (if isCacheValid c now then (Inr (getCachedStatuses c), c)
      else refreshAll c w fin)"

definition CheckAllForce ::
  "Checker \<Rightarrow> World \<Rightarrow> Time \<Rightarrow> (string + ServerStatus list) \<times> Checker" where
  "CheckAllForce c w fin = refreshAll c w fin"

subsection \<open>Checking one server\<close>

text \<open>The cloud icon U+2601 U+FE0F in UTF-8, the default of \<open>checkServerForce\<close>.\<close>

definition default_cloudIcon :: string where
  "default_cloudIcon = [CHR 0xE2, CHR 0x98, CHR 0x81, CHR 0xEF, CHR 0xB8, CHR 0x8F]"

fun cloudIcon_loop :: "CloudConfig list \<Rightarrow> string \<Rightarrow> string \<Rightarrow> string" where
  "cloudIcon_loop [] cloudName cloudIcon = cloudIcon"
| "cloudIcon_loop (cloud # rest) cloudName cloudIcon =
     (if Name_cloud cloud = cloudName then Icon_cloud cloud
      else cloudIcon_loop rest cloudName cloudIcon)"

definition checkServerForce ::
  "Checker \<Rightarrow> World \<Rightarrow> string \<Rightarrow> (string + ServerStatus) \<times> Checker" where
  "checkServerForce c w serverID =
     (case GetServer (config c) serverID of
        None \<Rightarrow> (Inl (''server not found: '' @ serverID), c)
      | Some server \<Rightarrow>
          (let cloudName = GetServerCloud (config c) serverID;
               cloudIcon = cloudIcon_loop (Clouds (config c)) cloudName default_cloudIcon
           in (case checkServer c w server cloudName cloudIcon of
                 (status, c1) \<Rightarrow> (Inr status, c1))))"

definition CheckServer ::
  "Checker \<Rightarrow> World \<Rightarrow> Time \<Rightarrow> string \<Rightarrow> (string + ServerStatus) \<times> Checker" where
  "CheckServer c w now serverID =
     (if isCacheValid c now then
        (case map_of (cache c) serverID of
           Some status \<Rightarrow> (Inr status, c)
         | None \<Rightarrow> checkServerForce c w serverID)
      else checkServerForce c w serverID)"

definition CheckServerForce ::
  "Checker \<Rightarrow> World \<Rightarrow> string \<Rightarrow> (string + ServerStatus) \<times> Checker" where
  "CheckServerForce c w serverID = checkServerForce c w serverID"

section \<open>The progress bar\<close>

text \<open>
  The comparisons and the two operations of \<open>FormatProgressBar\<close> on a \<open>float64\<close>.
  Every comparison with a NaN is false. A quotient and a product are the exact results
  rounded; an infinity divided by 100 is itself, and times a number is an infinity of the
  sign of the product, or NaN when the number is 0.
\<close>

fun f64_less :: "float64_val \<Rightarrow> float64_val \<Rightarrow> bool" where
  "f64_less NaN y = False"
| "f64_less x NaN = False"
| "f64_less NegInf NegInf = False"
| "f64_less NegInf y = True"
| "f64_less x NegInf = False"
| "f64_less PosInf y = False"
| "f64_less x PosInf = True"
| "f64_less (Finite x) (Finite y) = (x < y)"

fun f64_div100 :: "Platform \<Rightarrow> float64_val \<Rightarrow> float64_val" where
  "f64_div100 pl (Finite x) = Finite (round64 pl (x / 100))"
| "f64_div100 pl v = v"

fun f64_mul :: "Platform \<Rightarrow> float64_val \<Rightarrow> real \<Rightarrow> float64_val" where
  "f64_mul pl (Finite x) y = Finite (round64 pl (x * y))"
| "f64_mul pl NaN y = NaN"
| "f64_mul pl PosInf y = (if y = 0 then NaN else if 0 < y then PosInf else NegInf)"
| "f64_mul pl NegInf y = (if y = 0 then NaN else if 0 < y then NegInf else PosInf)"

text \<open>
  A conversion of a \<open>float64\<close> to \<open>int\<close> truncates towards zero when the result is
  an \<open>int\<close>, and is left to the platform otherwise. The subtraction of two \<open>int\<close>s
  wraps around. \<open>strings.Repeat\<close> panics on a negative count and when the length of
  its result overflows; it and the concatenation of two strings fail when the runtime
  cannot allocate the result. A panic or failure is the left summand, with its text.
\<close>

definition filled_cell :: string where
  "filled_cell = [CHR 0xE2, CHR 0x96, CHR 0x93]"

definition empty_cell :: string where
  "empty_cell = [CHR 0xE2, CHR 0x96, CHR 0x91]"

definition float64_to_int :: "Platform \<Rightarrow> float64_val \<Rightarrow> int" where
  "float64_to_int pl v =
     (case v of
        Finite x \<Rightarrow>
          (let t = (if 0 \<le> x then \<lfloor>x\<rfloor> else \<lceil>x\<rceil>)
           in if - (2 ^ 63) \<le> t \<and> t < 2 ^ 63 then t else int_indefinite pl v)
      | _ \<Rightarrow> int_indefinite pl v)"

definition wrap64 :: "int \<Rightarrow> int" where
  "wrap64 x = (x + 2 ^ 63) mod 2 ^ 64 - 2 ^ 63"

definition Repeat :: "Platform \<Rightarrow> string \<Rightarrow> int \<Rightarrow> string + string" where
  "Repeat pl s count =
     (if count < 0 then Inl ''strings: negative Repeat count''
      else if int (length s) * count > 2 ^ 63 - 1 then
        Inl ''strings: Repeat output length overflow''
      else if int (length s) * count > maxAlloc pl then Inl ''runtime: out of memory''
      else Inr (concat (replicate (nat count) s)))"

definition concat_strings :: "Platform \<Rightarrow> string \<Rightarrow> string \<Rightarrow> string + string" where
  "concat_strings pl a b =
     (if int (length a) + int (length b) > maxAlloc pl then Inl ''runtime: out of memory''
      else Inr (a @ b))"

definition FormatProgressBar :: "Platform \<Rightarrow> float64_val \<Rightarrow> int \<Rightarrow> string + string" where
  "FormatProgressBar pl percent width =
     (let p1 = (if f64_less percent (Finite 0) then Finite 0 else percent);
          p2 = (if f64_less (Finite 100) p1 then Finite 100 else p1);
          filled = float64_to_int pl
                     (f64_mul pl (f64_div100 pl p2) (round64 pl (real_of_int width)));
          empty = wrap64 (width - filled)
      in (case Repeat pl filled_cell filled of
            Inl p \<Rightarrow> Inl p
          | Inr a \<Rightarrow>
              (case Repeat pl empty_cell empty of
                 Inl p \<Rightarrow> Inl p
               | Inr b \<Rightarrow> concat_strings pl a b)))"

section \<open>Reachable checkers\<close>

text \<open>
  The checkers that exist at run time: the one built by \<open>NewChecker\<close> and those left by
  any call of a public operation, whatever the world answers and the clock reads.
\<close>

inductive reachable :: "Config \<Rightarrow> (string \<times> Client) list \<Rightarrow> Checker \<Rightarrow> bool"
  for cfg :: Config and sgClients :: "(string \<times> Client) list" where
  reach_New: "reachable cfg sgClients (NewChecker cfg sgClients)"
| reach_CheckAll:
    "reachable cfg sgClients c \<Longrightarrow> reachable cfg sgClients (snd (CheckAll c w now fin))"
| reach_CheckAllForce:
    "reachable cfg sgClients c \<Longrightarrow> reachable cfg sgClients (snd (CheckAllForce c w fin))"
| reach_CheckServer:
    "reachable cfg sgClients c \<Longrightarrow> reachable cfg sgClients (snd (CheckServer c w now serverID))"
| reach_CheckServerForce:
    "reachable cfg sgClients c \<Longrightarrow> reachable cfg sgClients (snd (CheckServerForce c w serverID))"
| reach_InvalidateCache:
    "reachable cfg sgClients c \<Longrightarrow> reachable cfg sgClients (InvalidateCache c)"

section \<open>Vocabulary of the properties\<close>

text \<open>
  The effect of a run of per-server checks that produced the statuses \<open>new\<close>, in this
  order: each status is stored in the cache under its ID, a later one replacing an
  earlier one, every run is recorded, and nothing else changes.
\<close>

definition refresh_effect :: "Checker \<Rightarrow> ServerStatus list \<Rightarrow> Checker \<Rightarrow> bool" where
  "refresh_effect c new c' \<longleftrightarrow>
     config c' = config c \<and> switchGateClients c' = switchGateClients c
     \<and> cacheTime c' = cacheTime c \<and> cacheTTL c' = cacheTTL c
     \<and> probes c' = probes c @ map ID new
     \<and> map_of (cache c') = map_of (cache c) ++ map_of (rev (map (\<lambda>st. (ID st, st)) new))"

text \<open>The cloud name of each server, in the order of \<open>GetAllServers\<close>.\<close>

fun cloud_names :: "CloudConfig list \<Rightarrow> string list" where
  "cloud_names [] = []"
| "cloud_names (cloud # rest) = replicate (length (Servers cloud)) (Name_cloud cloud) @ cloud_names rest"

fun cloud_icons :: "CloudConfig list \<Rightarrow> string list" where
  "cloud_icons [] = []"
| "cloud_icons (cloud # rest) =
     replicate (length (Servers cloud)) (Icon_cloud cloud) @ cloud_icons rest"

text \<open>
  What holds of every reachable checker: the configuration, the clients and the TTL are
  those given to \<open>NewChecker\<close>; every cache entry is a status of a configured server
  stored under its own ID, carries the name of the cloud of a server declared with that ID,
  and is the result of a check of a configured server on some answers of the network; a
  cache that is not empty has an entry for every configured server.
\<close>

definition checker_inv :: "Config \<Rightarrow> (string \<times> Client) list \<Rightarrow> Checker \<Rightarrow> bool" where
  "checker_inv cfg sgClients c \<longleftrightarrow>
     config c = cfg \<and> switchGateClients c = sgClients \<and> cacheTTL c = DefaultCacheTTL
     \<and> (\<forall>k st. map_of (cache c) k = Some st \<longrightarrow>
           ID st = k \<and> k \<in> ID_cfg ` set (GetAllServers cfg))
     \<and> (\<forall>k st. map_of (cache c) k = Some st \<longrightarrow>
           (\<exists>p < length (GetAllServers cfg).
              ID_cfg (GetAllServers cfg ! p) = k
              \<and> CloudName st = cloud_names (Clouds cfg) ! p))
     \<and> (\<forall>k st. map_of (cache c) k = Some st \<longrightarrow>
           (\<exists>net. \<exists>p < length (GetAllServers cfg).
              st = probe_server (NewChecker cfg sgClients) net (GetAllServers cfg ! p)
                     (cloud_names (Clouds cfg) ! p) (cloud_icons (Clouds cfg) ! p)))
     \<and> (cache c \<noteq> [] \<longrightarrow> (\<forall>s \<in> set (GetAllServers cfg). map_of (cache c) (ID_cfg s) \<noteq> None))"

text \<open>
  The position of server \<open>j\<close> of cloud \<open>i\<close> in the order of \<open>GetAllServers\<close>: the
  number of servers of the clouds before \<open>i\<close>, plus \<open>j\<close>.
\<close>

definition flat_index :: "CloudConfig list \<Rightarrow> nat \<Rightarrow> nat \<Rightarrow> nat" where
  "flat_index clouds i j = sum_list (map (\<lambda>cloud. length (Servers cloud)) (take i clouds)) + j"






subsection \<open>How a check records failures\<close>








section \<open>Sample data\<close>

text \<open>
  A network on which every call fails, one on which the remote agent answers but its node
  metrics do not, a configuration with a Prometheus server and a switch-gate server, and a
  configuration that declares one server ID in two clouds.
\<close>

definition ex_service_down :: ServiceStatus where
  "ex_service_down =
     \<lparr>Name_svc = ''Nginx'', Job_svc = ''nginx'', Port_svc = 443, IsUp_svc = False,
      Error_svc = []\<rparr>"

definition ex_status_degraded :: ServerStatus where
  "ex_status_degraded =
     \<lparr>ID = ''edge-gateway'', Name = ''edge-gateway'', Icon = [], CloudName = ''Production'',
      CloudIcon = [], IP = ''10.0.1.11'', IsUp = True, CPU = 45, Memory = 45, Disk = 35,
      MemoryUsedGB = 0.9, MemoryTotalGB = 2, DiskUsedGB = 3.5, DiskTotalGB = 10,
      Uptime = 1234567 * Second, ExternalAccess = True, ExternalLatency = 0,
      ExternalError = [], Services = [ex_service_down]\<rparr>"

text \<open>
  A platform for the samples: the values computed need no rounding, a conversion to
  \<open>int\<close> without a value gives the least \<open>int\<close>, as on amd64, and strings have up to
  \<open>2 ^ 48\<close> bytes.
\<close>

definition ex_platform :: Platform where
  "ex_platform = \<lparr>round64 = id, int_indefinite = (\<lambda>v. - (2 ^ 63)), maxAlloc = 2 ^ 48\<rparr>"

definition ex_net_down :: Net where
  "ex_net_down =
     \<lparr>prom_IsUp = (\<lambda>instance. Inl ''prometheus query failed''),
      prom_GetCPU = (\<lambda>instance. Inl ''prometheus query failed''),
      prom_GetMemory = (\<lambda>instance. Inl ''prometheus query failed''),
      prom_GetMemoryBytes = (\<lambda>instance. Inl ''prometheus query failed''),
      prom_GetDisk = (\<lambda>instance. Inl ''prometheus query failed''),
      prom_GetDiskBytes = (\<lambda>instance. Inl ''prometheus query failed''),
      prom_GetUptime = (\<lambda>instance. Inl ''prometheus query failed''),
      prom_IsServiceUp = (\<lambda>job instance. Inl ''prometheus query failed''),
      ssh_run = (\<lambda>cl cmd. DialJumpFailed ''i/o timeout''),
      json_Unmarshal = (\<lambda>output. Inl ''unexpected end of JSON input''),
      GetNodeMetrics = (\<lambda>cl. Inl ''dial jump host: i/o timeout''),
      ParseDuration = (\<lambda>s. Inl ''invalid duration''),
      http_Do = (\<lambda>url. DoFailed ''connection refused'' 1000000),
      net_DialTimeout = (\<lambda>addr. (Some ''connection refused'', 1000000)),
      platform = ex_platform\<rparr>"

definition ex_world_down :: World where
  "ex_world_down n = ex_net_down"

definition dup_server :: ServerConfig where
  "dup_server =
     \<lparr>ID_cfg = ''web'', Name_cfg = ''web'', Icon_cfg = [], IP_cfg = ''10.0.1.20'',
      PrometheusInstance = [], ExternalCheck = [], Services_cfg = []\<rparr>"

definition dup_config :: Config where
  "dup_config =
     \<lparr>Upstreams = [],
      Clouds = [\<lparr>Name_cloud = ''Production'', Icon_cloud = [], Servers = [dup_server]\<rparr>,
                \<lparr>Name_cloud = ''Staging'', Icon_cloud = [], Servers = [dup_server]\<rparr>]\<rparr>"

definition dup_first :: "(string + ServerStatus list) \<times> Checker" where
  "dup_first = CheckAll (NewChecker dup_config []) ex_world_down 100 200"

definition ex_upstream :: Upstream where
  "ex_upstream =
     \<lparr>Name_up = ''Primary'', IP_up = ''10.0.2.1'', User_up = ''root'', SwitchGate = True,
      SwitchGatePort = 9090\<rparr>"

definition ex_client :: Client where
  "ex_client =
     \<lparr>name_sg = ''primary'', jumpHost = ''master@10.0.1.11'', targetIP = ''10.0.2.1'',
      user_sg = ''root'', keyPath = [], apiPort = 9090\<rparr>"

definition ex_gateway :: ServerConfig where
  "ex_gateway =
     \<lparr>ID_cfg = ''edge-gateway'', Name_cfg = ''edge-gateway'', Icon_cfg = [],
      IP_cfg = ''10.0.1.11'', PrometheusInstance = [], ExternalCheck = [],
      Services_cfg = [\<lparr>Name_sc = ''Nginx'', Job_sc = ''nginx'', Port_sc = 443\<rparr>]\<rparr>"

definition ex_vps :: ServerConfig where
  "ex_vps =
     \<lparr>ID_cfg = ''vps'', Name_cfg = ''vps'', Icon_cfg = [], IP_cfg = ''10.0.2.1'',
      PrometheusInstance = [], ExternalCheck = [],
      Services_cfg = [\<lparr>Name_sc = ''switch-gate'', Job_sc = [], Port_sc = 9090\<rparr>,
                      \<lparr>Name_sc = ''node_exporter'', Job_sc = [], Port_sc = 9100\<rparr>]\<rparr>"

definition ex_config :: Config where
  "ex_config =
     \<lparr>Upstreams = [(''primary'', ex_upstream)],
      Clouds = [\<lparr>Name_cloud = ''Production'', Icon_cloud = [], Servers = [ex_gateway]\<rparr>,
                \<lparr>Name_cloud = ''VPS'', Icon_cloud = [], Servers = [ex_vps]\<rparr>]\<rparr>"

definition ex_checker :: Checker where
  "ex_checker = NewChecker ex_config [(''primary'', ex_client)]"

definition ex_first :: "(string + ServerStatus list) \<times> Checker" where
  "ex_first = CheckAll ex_checker ex_world_down 100 200"

definition ex_partial :: Checker where
  "ex_partial = ex_checker\<lparr>cache := [(''edge-gateway'', ex_status_degraded)], cacheTime := 200\<rparr>"

definition ex_net_agent :: Net where
  "ex_net_agent =
     ex_net_down\<lparr>ssh_run := (\<lambda>cl cmd. Ran ''{}''),
                  json_Unmarshal := (\<lambda>output.
                     Inr \<lparr>Mode = ''direct'', Uptime_sg = ''2h'', Connections = 3\<rparr>),
                  ParseDuration := (\<lambda>s. Inr (7200 * Second))\<rparr>"

definition dup_db :: ServerConfig where
  "dup_db =
     \<lparr>ID_cfg = ''db'', Name_cfg = ''db'', Icon_cfg = [], IP_cfg = ''10.0.1.30'',
      PrometheusInstance = [], ExternalCheck = [], Services_cfg = []\<rparr>"

definition dup3_config :: Config where
  "dup3_config =
     \<lparr>Upstreams = [],
      Clouds = [\<lparr>Name_cloud = ''Production'', Icon_cloud = [], Servers = [dup_server, dup_db]\<rparr>,
                \<lparr>Name_cloud = ''Staging'', Icon_cloud = [], Servers = [dup_server]\<rparr>]\<rparr>"

definition dup3_first :: "(string + ServerStatus list) \<times> Checker" where
  "dup3_first = CheckAll (NewChecker dup3_config []) ex_world_down 100 200"


section \<open>Status level: properties\<close>

lemma services_level_eq:
  "services_level svcs =
     (if (\<exists>svc \<in> set svcs. \<not> IsUp_svc svc) then StatusDegraded else StatusUp)"
  by (induction svcs) auto

section \<open>Properties of the checker\<close>

subsection \<open>Fields kept by a check\<close>

lemma prometheus_services_keeps:
  "ID (prometheus_services net inst st svcs) = ID st
   \<and> CloudName (prometheus_services net inst st svcs) = CloudName st
   \<and> IsUp (prometheus_services net inst st svcs) = IsUp st"
  by (induction svcs arbitrary: st) (auto simp: Let_def split: sum.splits)

lemma prometheus_metrics_keeps:
  "ID (prometheus_metrics net inst st) = ID st
   \<and> CloudName (prometheus_metrics net inst st) = CloudName st"
  by (simp add: prometheus_metrics_def Let_def split: sum.splits prod.splits)

lemma checkPrometheusServer_keeps:
  "ID (checkPrometheusServer net st server) = ID st
   \<and> CloudName (checkPrometheusServer net st server) = CloudName st"
  by (simp add: checkPrometheusServer_def Let_def prometheus_services_keeps
      prometheus_metrics_keeps split: sum.splits)

lemma switchgate_services_eq:
  "switchgate_services st svcs =
     st\<lparr>Services := Services st @
        map (\<lambda>svc. \<lparr>Name_svc = Name_sc svc, Job_svc = [], Port_svc = Port_sc svc,
                     IsUp_svc = (Name_sc svc = ''node_exporter'' \<longrightarrow> Memory st > 0),
                     Error_svc = []\<rparr>) svcs\<rparr>"
  by (induction svcs arbitrary: st) (auto simp: Let_def)

lemma node_metrics_keeps:
  "ID (node_metrics pl nm st) = ID st \<and> CloudName (node_metrics pl nm st) = CloudName st
   \<and> IsUp (node_metrics pl nm st) = IsUp st
   \<and> Services (node_metrics pl nm st) = Services st"
  by (simp add: node_metrics_def Let_def)

lemma checkSwitchGateServer_keeps:
  "ID (checkSwitchGateServer c net st server key) = ID st
   \<and> CloudName (checkSwitchGateServer c net st server key) = CloudName st"
  by (simp add: checkSwitchGateServer_def Let_def switchgate_services_eq node_metrics_keeps
      split: option.splits sum.splits)

lemma probe_server_ID:
  "ID (probe_server c net server cn ci) = ID_cfg server"
  by (simp add: probe_server_def Let_def new_status_def checkSwitchGateServer_keeps
      checkPrometheusServer_keeps split: prod.splits option.splits)

lemma probe_server_CloudName:
  "CloudName (probe_server c net server cn ci) = cn"
  by (simp add: probe_server_def Let_def new_status_def checkSwitchGateServer_keeps
      checkPrometheusServer_keeps split: prod.splits option.splits)

subsection \<open>The loops of a refresh\<close>

lemma refresh_effect_refl: "refresh_effect c [] c"
  by (simp add: refresh_effect_def)

lemma refresh_effect_trans:
  "refresh_effect c xs c1 \<Longrightarrow> refresh_effect c1 ys c2 \<Longrightarrow> refresh_effect c (xs @ ys) c2"
  by (simp add: refresh_effect_def rev_map[symmetric] map_add_assoc)

lemma refresh_effect_step:
  "ID st = k \<Longrightarrow>
   refresh_effect c [st] (c\<lparr>probes := probes c @ [k], cache := AList.update k st (cache c)\<rparr>)"
  by (auto simp: refresh_effect_def update_conv' map_add_def fun_eq_iff)

lemma checkSwitchGateServer_cong:
  "switchGateClients c' = switchGateClients c \<Longrightarrow>
   checkSwitchGateServer c' net st server key = checkSwitchGateServer c net st server key"
  by (simp add: checkSwitchGateServer_def)

lemma probe_server_cong:
  assumes "config c' = config c" and "switchGateClients c' = switchGateClients c"
  shows "probe_server c' net server cn ci = probe_server c net server cn ci"
proof -
  have "checkSwitchGateServer c' net st server key = checkSwitchGateServer c net st server key"
    for st key
    using assms(2) by (rule checkSwitchGateServer_cong)
  then show ?thesis
    unfolding probe_server_def by (simp only: assms(1))
qed

lemma refresh_servers_effect:
  "\<exists>new c'. refresh_servers w cn ci srvs (acc, c) = (acc @ new, c')
     \<and> refresh_effect c new c' \<and> map ID new = map ID_cfg srvs
     \<and> (\<forall>st \<in> set new. CloudName st = cn)
     \<and> (\<forall>p < length srvs.
           new ! p = probe_server c (w (length (probes c) + p)) (srvs ! p) cn ci)"
proof (induction srvs arbitrary: acc c)
  case Nil
  show ?case by (simp add: refresh_effect_refl)
next
  case (Cons s rest)
  define st where "st = probe_server c (w (length (probes c))) s cn ci"
  define c1 where "c1 = c\<lparr>probes := probes c @ [ID_cfg s], cache := AList.update (ID_cfg s) st (cache c)\<rparr>"
  have step: "refresh_servers w cn ci (s # rest) (acc, c) = refresh_servers w cn ci rest (acc @ [st], c1)"
    by (simp add: checkServer_def st_def c1_def)
  have e1: "refresh_effect c [st] c1"
    unfolding c1_def by (rule refresh_effect_step) (simp add: st_def probe_server_ID)
  have same: "probe_server c1 net server x y = probe_server c net server x y" for net server x y
    by (rule probe_server_cong) (simp_all add: c1_def)
  have len: "length (probes c1) = Suc (length (probes c))"
    by (simp add: c1_def)
  from Cons.IH [of "acc @ [st]" c1] obtain new c' where
    r: "refresh_servers w cn ci rest (acc @ [st], c1) = ((acc @ [st]) @ new, c')"
    and e2: "refresh_effect c1 new c'" and ids: "map ID new = map ID_cfg rest"
    and cn: "\<forall>x \<in> set new. CloudName x = cn"
    and at: "\<forall>p < length rest.
        new ! p = probe_server c1 (w (length (probes c1) + p)) (rest ! p) cn ci"
    by blast
  have "refresh_servers w cn ci (s # rest) (acc, c) = (acc @ (st # new), c')"
    using step r by simp
  moreover have "refresh_effect c (st # new) c'"
    using refresh_effect_trans [OF e1 e2] by simp
  moreover have "map ID (st # new) = map ID_cfg (s # rest)"
    using ids by (simp add: st_def probe_server_ID)
  moreover have "\<forall>x \<in> set (st # new). CloudName x = cn"
    using cn by (simp add: st_def probe_server_CloudName)
  moreover have "\<forall>p < length (s # rest).
      (st # new) ! p = probe_server c (w (length (probes c) + p)) ((s # rest) ! p) cn ci"
  proof (intro allI impI)
    fix p assume p: "p < length (s # rest)"
    show "(st # new) ! p = probe_server c (w (length (probes c) + p)) ((s # rest) ! p) cn ci"
    proof (cases p)
      case 0
      then show ?thesis by (simp add: st_def)
    next
      case (Suc q)
      then have "q < length rest" using p by simp
      then have "new ! q = probe_server c1 (w (length (probes c1) + q)) (rest ! q) cn ci"
        using at by blast
      then show ?thesis using Suc by (simp add: same len)
    qed
  qed
  ultimately show ?case by blast
qed

lemma length_cloud_icons: "length (cloud_icons clouds) = length (GetAllServers_clouds clouds)"
  by (induction clouds) simp_all

lemma length_cloud_names: "length (cloud_names clouds) = length (GetAllServers_clouds clouds)"
  by (induction clouds) simp_all

lemma refresh_clouds_effect:
  "\<exists>new c'. refresh_clouds w clouds (acc, c) = (acc @ new, c')
     \<and> refresh_effect c new c' \<and> map ID new = map ID_cfg (GetAllServers_clouds clouds)
     \<and> map CloudName new = cloud_names clouds
     \<and> (\<forall>p < length (GetAllServers_clouds clouds).
           new ! p = probe_server c (w (length (probes c) + p)) (GetAllServers_clouds clouds ! p)
                       (cloud_names clouds ! p) (cloud_icons clouds ! p))"
proof (induction clouds arbitrary: acc c)
  case Nil
  show ?case by (simp add: refresh_effect_refl)
next
  case (Cons cl rest)
  obtain n1 c1 where
    r1: "refresh_servers w (Name_cloud cl) (Icon_cloud cl) (Servers cl) (acc, c) = (acc @ n1, c1)"
    and e1: "refresh_effect c n1 c1" and i1: "map ID n1 = map ID_cfg (Servers cl)"
    and cn1: "\<forall>st \<in> set n1. CloudName st = Name_cloud cl"
    and at1: "\<forall>p < length (Servers cl).
        n1 ! p = probe_server c (w (length (probes c) + p)) (Servers cl ! p)
                   (Name_cloud cl) (Icon_cloud cl)"
    using refresh_servers_effect by blast
  from Cons.IH [of "acc @ n1" c1] obtain n2 c2 where
    r2: "refresh_clouds w rest (acc @ n1, c1) = ((acc @ n1) @ n2, c2)"
    and e2: "refresh_effect c1 n2 c2"
    and i2: "map ID n2 = map ID_cfg (GetAllServers_clouds rest)"
    and cn2: "map CloudName n2 = cloud_names rest"
    and at2: "\<forall>p < length (GetAllServers_clouds rest).
        n2 ! p = probe_server c1 (w (length (probes c1) + p)) (GetAllServers_clouds rest ! p)
                   (cloud_names rest ! p) (cloud_icons rest ! p)"
    by blast
  have len: "length n1 = length (Servers cl)"
    using i1 by (metis length_map)
  have same: "probe_server c1 net server x y = probe_server c net server x y" for net server x y
    using e1 by (intro probe_server_cong) (simp_all add: refresh_effect_def)
  have pl: "length (probes c1) = length (probes c) + length (Servers cl)"
    using e1 len by (simp add: refresh_effect_def)
  have "map CloudName n1 = replicate (length n1) (Name_cloud cl)"
    using cn1 by (induction n1) auto
  then have "map CloudName n1 = replicate (length (Servers cl)) (Name_cloud cl)"
    using len by simp
  then have "map CloudName (n1 @ n2) = cloud_names (cl # rest)"
    using cn2 by simp
  moreover have "refresh_clouds w (cl # rest) (acc, c) = (acc @ (n1 @ n2), c2)"
    using r1 r2 by simp
  moreover have "refresh_effect c (n1 @ n2) c2"
    by (rule refresh_effect_trans [OF e1 e2])
  moreover have "map ID (n1 @ n2) = map ID_cfg (GetAllServers_clouds (cl # rest))"
    using i1 i2 by simp
  moreover have "\<forall>p < length (GetAllServers_clouds (cl # rest)).
      (n1 @ n2) ! p =
        probe_server c (w (length (probes c) + p)) (GetAllServers_clouds (cl # rest) ! p)
          (cloud_names (cl # rest) ! p) (cloud_icons (cl # rest) ! p)"
  proof (intro allI impI)
    fix p assume p: "p < length (GetAllServers_clouds (cl # rest))"
    show "(n1 @ n2) ! p =
        probe_server c (w (length (probes c) + p)) (GetAllServers_clouds (cl # rest) ! p)
          (cloud_names (cl # rest) ! p) (cloud_icons (cl # rest) ! p)"
    proof (cases "p < length (Servers cl)")
      case True
      then show ?thesis using at1 len by (simp add: nth_append)
    next
      case False
      define q where "q = p - length (Servers cl)"
      have q: "q < length (GetAllServers_clouds rest)" and pq: "p = length (Servers cl) + q"
        using False p by (simp_all add: q_def)
      have "n2 ! q = probe_server c1 (w (length (probes c1) + q)) (GetAllServers_clouds rest ! q)
                   (cloud_names rest ! q) (cloud_icons rest ! q)"
        using at2 q by blast
      then show ?thesis
        unfolding pq using len by (simp add: nth_append same pl add.assoc)
    qed
  qed
  ultimately show ?case by blast
qed

lemma refreshAll_effect:
  "\<exists>new c'. refreshAll c w fin = (Inr new, c'\<lparr>cacheTime := fin\<rparr>)
     \<and> refresh_effect c new c' \<and> map ID new = map ID_cfg (GetAllServers (config c))
     \<and> map CloudName new = cloud_names (Clouds (config c))
     \<and> (\<forall>p < length (GetAllServers (config c)).
           new ! p = probe_server c (w (length (probes c) + p)) (GetAllServers (config c) ! p)
                       (cloud_names (Clouds (config c)) ! p)
                       (cloud_icons (Clouds (config c)) ! p))"
proof -
  obtain new c' where
    r: "refresh_clouds w (Clouds (config c)) ([], c) = ([] @ new, c')"
    and e: "refresh_effect c new c'"
    and i: "map ID new = map ID_cfg (GetAllServers_clouds (Clouds (config c)))"
    and n: "map CloudName new = cloud_names (Clouds (config c))"
    and a: "\<forall>p < length (GetAllServers_clouds (Clouds (config c))).
        new ! p = probe_server c (w (length (probes c) + p))
                    (GetAllServers_clouds (Clouds (config c)) ! p)
                    (cloud_names (Clouds (config c)) ! p) (cloud_icons (Clouds (config c)) ! p)"
    using refresh_clouds_effect by blast
  have "refreshAll c w fin = (Inr new, c'\<lparr>cacheTime := fin\<rparr>)"
    using r by (simp add: refreshAll_def)
  then show ?thesis using e i n a unfolding GetAllServers_def by blast
qed

subsection \<open>Lookup of a server\<close>

lemma find_server_None: "find_server srvs k = None \<longleftrightarrow> k \<notin> ID_cfg ` set srvs"
  by (induction srvs) auto

lemma find_server_Some: "find_server srvs k = Some s \<Longrightarrow> ID_cfg s = k \<and> s \<in> set srvs"
  by (induction srvs) (auto split: if_splits)

lemma GetServer_clouds_None:
  "GetServer_clouds clouds k = None \<longleftrightarrow> k \<notin> ID_cfg ` set (GetAllServers_clouds clouds)"
  by (induction clouds) (auto simp: find_server_None split: option.splits dest: find_server_Some)

lemma GetServer_clouds_Some:
  "GetServer_clouds clouds k = Some s \<Longrightarrow> ID_cfg s = k \<and> s \<in> set (GetAllServers_clouds clouds)"
  by (induction clouds) (auto split: option.splits dest: find_server_Some)

lemma GetServer_None:
  "GetServer cfg k = None \<longleftrightarrow> k \<notin> ID_cfg ` set (GetAllServers cfg)"
  by (simp add: GetServer_def GetAllServers_def GetServer_clouds_None)

lemma GetServer_Some:
  "GetServer cfg k = Some s \<Longrightarrow> ID_cfg s = k \<and> s \<in> set (GetAllServers cfg)"
  by (simp add: GetServer_def GetAllServers_def GetServer_clouds_Some)

subsection \<open>The invariant\<close>

lemma map_of_by_ID:
  "map_of (rev (map (\<lambda>st. (ID st, st)) new)) k = Some st \<Longrightarrow> ID st = k \<and> st \<in> set new"
  by (auto dest!: map_of_SomeD)

lemma map_of_by_ID_dom:
  "k \<in> ID ` set new \<Longrightarrow> \<exists>st. map_of (rev (map (\<lambda>st. (ID st, st)) new)) k = Some st"
proof -
  assume "k \<in> ID ` set new"
  then have "k \<in> fst ` set (rev (map (\<lambda>st. (ID st, st)) new))"
    by (simp add: image_image)
  then have "map_of (rev (map (\<lambda>st. (ID st, st)) new)) k \<noteq> None"
    by (simp only: map_of_eq_None_iff not_not)
  then show ?thesis by blast
qed

lemma checker_inv_refreshAll:
  assumes "checker_inv cfg cl c"
  shows "checker_inv cfg cl (snd (refreshAll c w fin))"
proof -
  obtain new c' where r: "refreshAll c w fin = (Inr new, c'\<lparr>cacheTime := fin\<rparr>)"
    and e: "refresh_effect c new c'"
    and i: "map ID new = map ID_cfg (GetAllServers (config c))"
    and n: "map CloudName new = cloud_names (Clouds (config c))"
    and nth: "\<forall>p < length (GetAllServers (config c)).
        new ! p = probe_server c (w (length (probes c) + p)) (GetAllServers (config c) ! p)
                    (cloud_names (Clouds (config c)) ! p)
                    (cloud_icons (Clouds (config c)) ! p)"
    using refreshAll_effect by blast
  have cfg: "config c = cfg" using assms by (simp add: checker_inv_def)
  have same: "probe_server c net server x y = probe_server (NewChecker cfg cl) net server x y"
    for net server x y
    using assms by (intro probe_server_cong) (simp_all add: checker_inv_def NewChecker_def)
  have ids: "ID ` set new = ID_cfg ` set (GetAllServers cfg)"
    using i cfg by (metis set_map)
  have m: "map_of (cache c') = map_of (cache c) ++ map_of (rev (map (\<lambda>st. (ID st, st)) new))"
    using e by (simp add: refresh_effect_def)
  have a: "\<forall>k st. map_of (cache c') k = Some st \<longrightarrow> ID st = k \<and> k \<in> ID_cfg ` set (GetAllServers cfg)"
  proof (intro allI impI)
    fix k st assume "map_of (cache c') k = Some st"
    then have "map_of (rev (map (\<lambda>st. (ID st, st)) new)) k = Some st
      \<or> map_of (cache c) k = Some st"
      unfolding m map_add_Some_iff by blast
    then consider "map_of (rev (map (\<lambda>st. (ID st, st)) new)) k = Some st"
      | "map_of (cache c) k = Some st"
      by blast
    then show "ID st = k \<and> k \<in> ID_cfg ` set (GetAllServers cfg)"
    proof cases
      case 1
      then have "ID st = k \<and> st \<in> set new" by (rule map_of_by_ID)
      then show ?thesis using ids by auto
    next
      case 2
      then show ?thesis using assms by (simp add: checker_inv_def)
    qed
  qed
  have b: "\<forall>s \<in> set (GetAllServers cfg). map_of (cache c') (ID_cfg s) \<noteq> None"
  proof
    fix s assume "s \<in> set (GetAllServers cfg)"
    then have "ID_cfg s \<in> ID ` set new" using ids by auto
    then have "\<exists>st. map_of (rev (map (\<lambda>st. (ID st, st)) new)) (ID_cfg s) = Some st"
      by (rule map_of_by_ID_dom)
    then show "map_of (cache c') (ID_cfg s) \<noteq> None"
      unfolding m by (metis map_add_find_right option.distinct(1))
  qed
  have cns: "map CloudName new = cloud_names (Clouds cfg)"
    using n cfg by simp
  have lenn: "length new = length (GetAllServers cfg)"
    using i cfg by (metis length_map)
  have d: "\<forall>k st. map_of (cache c') k = Some st \<longrightarrow>
      (\<exists>p < length (GetAllServers cfg).
         ID_cfg (GetAllServers cfg ! p) = k \<and> CloudName st = cloud_names (Clouds cfg) ! p)"
  proof (intro allI impI)
    fix k st assume "map_of (cache c') k = Some st"
    then have "map_of (rev (map (\<lambda>st. (ID st, st)) new)) k = Some st
      \<or> map_of (cache c) k = Some st"
      unfolding m map_add_Some_iff by blast
    then consider "map_of (rev (map (\<lambda>st. (ID st, st)) new)) k = Some st"
      | "map_of (cache c) k = Some st"
      by blast
    then show "\<exists>p < length (GetAllServers cfg).
         ID_cfg (GetAllServers cfg ! p) = k \<and> CloudName st = cloud_names (Clouds cfg) ! p"
    proof cases
      case 1
      then have "ID st = k \<and> st \<in> set new" by (rule map_of_by_ID)
      then obtain p where p: "p < length new" "new ! p = st" "ID st = k"
        by (auto simp: in_set_conv_nth)
      have "map ID new ! p = map ID_cfg (GetAllServers cfg) ! p"
        using i cfg by simp
      then have "ID_cfg (GetAllServers cfg ! p) = k"
        using p lenn by simp
      moreover have "map CloudName new ! p = cloud_names (Clouds cfg) ! p"
        using cns by simp
      then have "CloudName st = cloud_names (Clouds cfg) ! p"
        using p by simp
      ultimately show ?thesis using p(1) lenn by auto
    next
      case 2
      then show ?thesis using assms unfolding checker_inv_def by blast
    qed
  qed
  have g: "\<forall>k st. map_of (cache c') k = Some st \<longrightarrow>
      (\<exists>net. \<exists>p < length (GetAllServers cfg).
         st = probe_server (NewChecker cfg cl) net (GetAllServers cfg ! p)
                (cloud_names (Clouds cfg) ! p) (cloud_icons (Clouds cfg) ! p))"
  proof (intro allI impI)
    fix k st assume "map_of (cache c') k = Some st"
    then have "map_of (rev (map (\<lambda>st. (ID st, st)) new)) k = Some st
      \<or> map_of (cache c) k = Some st"
      unfolding m map_add_Some_iff by blast
    then consider "map_of (rev (map (\<lambda>st. (ID st, st)) new)) k = Some st"
      | "map_of (cache c) k = Some st"
      by blast
    then show "\<exists>net. \<exists>p < length (GetAllServers cfg).
         st = probe_server (NewChecker cfg cl) net (GetAllServers cfg ! p)
                (cloud_names (Clouds cfg) ! p) (cloud_icons (Clouds cfg) ! p)"
    proof cases
      case 1
      then have "ID st = k \<and> st \<in> set new" by (rule map_of_by_ID)
      then obtain p where p: "p < length new" "new ! p = st"
        by (auto simp: in_set_conv_nth)
      have "new ! p = probe_server c (w (length (probes c) + p)) (GetAllServers cfg ! p)
                    (cloud_names (Clouds cfg) ! p) (cloud_icons (Clouds cfg) ! p)"
        using nth p(1) lenn unfolding cfg by simp
      then have "st = probe_server (NewChecker cfg cl) (w (length (probes c) + p))
          (GetAllServers cfg ! p) (cloud_names (Clouds cfg) ! p) (cloud_icons (Clouds cfg) ! p)"
        using p(2) by (simp add: same)
      then show ?thesis using p(1) lenn by auto
    next
      case 2
      then show ?thesis using assms unfolding checker_inv_def by blast
    qed
  qed
  have c1: "config c' = cfg" "switchGateClients c' = cl" "cacheTTL c' = DefaultCacheTTL"
    using assms e by (simp_all add: checker_inv_def refresh_effect_def)
  show ?thesis
    unfolding r checker_inv_def using c1 a b d g by simp
qed

lemma checkServerForce_state:
  "snd (checkServerForce c w k) =
     (case GetServer (config c) k of None \<Rightarrow> c
      | Some s \<Rightarrow> c\<lparr>probes := probes c @ [k]\<rparr>)"
  by (auto simp: checkServerForce_def checkServer_def Let_def split: option.splits
      dest: GetServer_Some)

lemma checker_inv_probes:
  "checker_inv cfg cl c \<Longrightarrow> checker_inv cfg cl (c\<lparr>probes := p\<rparr>)"
  by (simp add: checker_inv_def)

lemma checker_inv_checkServerForce:
  "checker_inv cfg cl c \<Longrightarrow> checker_inv cfg cl (snd (checkServerForce c w k))"
  by (simp add: checkServerForce_state checker_inv_probes split: option.splits)

lemma reachable_inv: "reachable cfg cl c \<Longrightarrow> checker_inv cfg cl c"
proof (induction rule: reachable.induct)
  case reach_New
  show ?case by (simp add: checker_inv_def NewChecker_def)
next
  case (reach_CheckAll c w now fin)
  then show ?case by (simp add: CheckAll_def checker_inv_refreshAll)
next
  case (reach_CheckAllForce c w fin)
  then show ?case by (simp add: CheckAllForce_def checker_inv_refreshAll)
next
  case (reach_CheckServer c w now serverID)
  then show ?case
    by (simp add: CheckServer_def checker_inv_checkServerForce split: option.splits)
next
  case (reach_CheckServerForce c w serverID)
  then show ?case by (simp add: CheckServerForce_def checker_inv_checkServerForce)
next
  case (reach_InvalidateCache c)
  then show ?case by (simp add: checker_inv_def InvalidateCache_def)
qed

subsection \<open>Reading the cache\<close>

lemma cached_servers_eq:
  "cached_servers ch srvs acc = acc @ List.map_filter (\<lambda>s. map_of ch (ID_cfg s)) srvs"
  by (induction srvs arbitrary: acc) (auto simp: map_filter_simps split: option.splits)

lemma map_filter_app:
  "List.map_filter f (xs @ ys) = List.map_filter f xs @ List.map_filter f ys"
  by (simp add: map_filter_def)

lemma cached_clouds_eq:
  "cached_clouds ch clouds acc =
     acc @ List.map_filter (\<lambda>s. map_of ch (ID_cfg s)) (GetAllServers_clouds clouds)"
  by (induction clouds arbitrary: acc) (simp_all add: cached_servers_eq map_filter_app map_filter_simps)

lemma getCachedStatuses_eq:
  "getCachedStatuses c =
     List.map_filter (\<lambda>s. map_of (cache c) (ID_cfg s)) (GetAllServers (config c))"
  by (simp add: getCachedStatuses_def cached_clouds_eq GetAllServers_def)

lemma map_filter_all_Some:
  "map g srvs = map h new \<Longrightarrow> \<forall>st \<in> set new. M (h st) = Some st \<Longrightarrow>
   List.map_filter (\<lambda>s. M (g s)) srvs = new"
proof (induction srvs arbitrary: new)
  case Nil
  then show ?case by (simp add: map_filter_simps)
next
  case (Cons a srvs)
  then obtain n ns where new: "new = n # ns" by (cases new) auto
  with Cons.prems have "g a = h n" "map g srvs = map h ns" "M (h n) = Some n"
    "\<forall>st \<in> set ns. M (h st) = Some st"
    by auto
  then show ?case using Cons.IH [of ns] new by (simp add: map_filter_simps)
qed

lemma map_of_by_ID_distinct:
  assumes "distinct (map ID new)" "st \<in> set new"
  shows "map_of (rev (map (\<lambda>st. (ID st, st)) new)) (ID st) = Some st"
proof -
  have "distinct (map fst (rev (map (\<lambda>st. (ID st, st)) new)))"
    using assms(1) by (simp add: rev_map [symmetric] comp_def)
  moreover have "(ID st, st) \<in> set (rev (map (\<lambda>st. (ID st, st)) new))"
    using assms(2) by auto
  ultimately show ?thesis by (rule map_of_is_SomeI)
qed

lemma Since_less:
  "now - t < d \<Longrightarrow> d \<le> maxDuration \<Longrightarrow> minDuration < d \<Longrightarrow> Since now t < d"
  by (auto simp: Since_def Sub_def Let_def)

lemma refreshAll_then_cached:
  assumes "distinct (map ID_cfg (GetAllServers (config c)))"
    and "refreshAll c w fin = (r, c1)"
  shows "r = Inr (getCachedStatuses c1)"
proof -
  obtain new c' where r: "refreshAll c w fin = (Inr new, c'\<lparr>cacheTime := fin\<rparr>)"
    and e: "refresh_effect c new c'"
    and i: "map ID new = map ID_cfg (GetAllServers (config c))"
    using refreshAll_effect by blast
  have c1: "c1 = c'\<lparr>cacheTime := fin\<rparr>" and rr: "r = Inr new"
    using r assms(2) by simp_all
  have d: "distinct (map ID new)" using assms(1) i by simp
  have m: "map_of (cache c1) = map_of (cache c) ++ map_of (rev (map (\<lambda>st. (ID st, st)) new))"
    using e c1 by (simp add: refresh_effect_def)
  have "\<forall>st \<in> set new. map_of (cache c1) (ID st) = Some st"
    unfolding m using map_of_by_ID_distinct [OF d] by (simp add: map_add_find_right)
  moreover have "map ID_cfg (GetAllServers (config c1)) = map ID new"
    using i e c1 by (simp add: refresh_effect_def)
  ultimately have "List.map_filter (\<lambda>s. map_of (cache c1) (ID_cfg s)) (GetAllServers (config c1)) = new"
    by (rule map_filter_all_Some [rotated])
  then show ?thesis using rr by (simp add: getCachedStatuses_eq)
qed

lemma refreshAll_probes:
  "probes (snd (refreshAll c w fin)) = probes c @ map ID_cfg (GetAllServers (config c))
   \<and> cacheTime (snd (refreshAll c w fin)) = fin \<and> (\<exists>new. fst (refreshAll c w fin) = Inr new)"
proof -
  obtain new c' where r: "refreshAll c w fin = (Inr new, c'\<lparr>cacheTime := fin\<rparr>)"
    and e: "refresh_effect c new c'"
    and i: "map ID new = map ID_cfg (GetAllServers (config c))"
    using refreshAll_effect by blast
  show ?thesis unfolding r using e i by (simp add: refresh_effect_def)
qed

subsection \<open>Unfolding the model on sample data\<close>

lemmas eval_defs = NewChecker_def CheckAll_def refreshAll_def isCacheValid_def checkServer_def
  probe_server_def new_status_def GetUpstreamByIP_def IsSwitchGateServer_def
  checkPrometheusServer_def checkSwitchGateServer_def getCachedStatuses_def Since_def Sub_def
  maxDuration_def minDuration_def DefaultCacheTTL_def Second_def Let_def
  checkExternal_def GetStatus_def exec_def
  CheckServerForce_def checkServerForce_def CheckServer_def GetServer_def GetServerCloud_def
  GetAllServers_def InvalidateCache_def CheckAllForce_def

lemmas ex_defs = ex_checker_def ex_config_def ex_gateway_def ex_vps_def ex_client_def
  ex_upstream_def ex_world_down_def ex_net_down_def dup_first_def dup_config_def dup_server_def
  ex_first_def

subsection \<open>Single-server checks\<close>

lemma checkServerForce_result:
  "fst (checkServerForce c w k) =
     (case GetServer (config c) k of
        None \<Rightarrow> Inl (''server not found: '' @ k)
      | Some s \<Rightarrow>
          Inr (probe_server c (w (length (probes c))) s (GetServerCloud (config c) k)
                 (cloudIcon_loop (Clouds (config c)) (GetServerCloud (config c) k)
                    default_cloudIcon)))"
  by (simp add: checkServerForce_def checkServer_def Let_def split: option.splits)

lemma CheckServer_state:
  "cache (snd (CheckServer c w now k)) = cache c
   \<and> cacheTime (snd (CheckServer c w now k)) = cacheTime c"
  by (simp add: CheckServer_def checkServerForce_state split: option.splits)

lemma checkServerForce_isl:
  "isl (fst (checkServerForce c w k)) \<longleftrightarrow> GetServer (config c) k = None"
  by (simp add: checkServerForce_result split: option.splits)

subsection \<open>The switch-gate path\<close>

lemma GetStatus_error_nonempty: "GetStatus net cl = Inl err \<Longrightarrow> err \<noteq> []"
  by (auto simp: GetStatus_def exec_def split: exec_outcome.splits sum.splits)

lemma GetStatusLevel_cong:
  "IsUp a = IsUp b \<Longrightarrow> CPU a = CPU b \<Longrightarrow> Memory a = Memory b \<Longrightarrow> Disk a = Disk b \<Longrightarrow>
   Services a = Services b \<Longrightarrow> GetStatusLevel a = GetStatusLevel b"
  by (simp add: GetStatusLevel_def)

lemma GetStatusLevel_eq:
  "GetStatusLevel s =
     (if \<not> IsUp s then StatusDown
      else if CPU s > 80 \<or> Memory s > 85 \<or> Disk s > 85
              \<or> (\<exists>svc \<in> set (Services s). \<not> IsUp_svc svc) then StatusDegraded
      else StatusUp)"
  by (simp add: GetStatusLevel_def services_level_eq)

lemma probe_server_switchgate:
  assumes "GetUpstreamByIP (config c) (IP_cfg server) = key" "key \<noteq> []"
    "IsSwitchGateServer (config c) (IP_cfg server)"
  shows "IsUp (probe_server c net server cn ci) =
           IsUp (checkSwitchGateServer c net (new_status server cn ci) server key)
    \<and> CPU (probe_server c net server cn ci) =
           CPU (checkSwitchGateServer c net (new_status server cn ci) server key)
    \<and> Memory (probe_server c net server cn ci) =
           Memory (checkSwitchGateServer c net (new_status server cn ci) server key)
    \<and> Disk (probe_server c net server cn ci) =
           Disk (checkSwitchGateServer c net (new_status server cn ci) server key)
    \<and> Services (probe_server c net server cn ci) =
           Services (checkSwitchGateServer c net (new_status server cn ci) server key)"
  using assms by (simp add: probe_server_def Let_def split: prod.splits option.splits)

lemma checkSwitchGateServer_no_client:
  "map_of (switchGateClients c) key = None \<Longrightarrow>
   checkSwitchGateServer c net st server key = st\<lparr>IsUp := False\<rparr>"
  by (simp add: checkSwitchGateServer_def)

lemma checkSwitchGateServer_failed:
  "map_of (switchGateClients c) key = Some sgClient \<Longrightarrow> GetStatus net sgClient = Inl err \<Longrightarrow>
   checkSwitchGateServer c net st server key =
     st\<lparr>IsUp := False,
        Services := Services st @
          [\<lparr>Name_svc = ''switch-gate'', Job_svc = [], Port_svc = 9090, IsUp_svc = False,
            Error_svc = err\<rparr>]\<rparr>"
  by (simp add: checkSwitchGateServer_def)

lemma checkSwitchGateServer_ok:
  assumes "map_of (switchGateClients c) key = Some sgClient" "GetStatus net sgClient = Inr sgStatus"
  shows "IsUp (checkSwitchGateServer c net st server key)
    \<and> Services (checkSwitchGateServer c net st server key) =
        Services st @
        map (\<lambda>svc. \<lparr>Name_svc = Name_sc svc, Job_svc = [], Port_svc = Port_sc svc,
                     IsUp_svc = (Name_sc svc = ''node_exporter'' \<longrightarrow>
                        0 < Memory (checkSwitchGateServer c net st server key)),
                     Error_svc = []\<rparr>) (Services_cfg server)
    \<and> (\<forall>e. GetNodeMetrics net sgClient = Inl e \<longrightarrow>
          Memory (checkSwitchGateServer c net st server key) = Memory st
          \<and> CPU (checkSwitchGateServer c net st server key) = CPU st
          \<and> Disk (checkSwitchGateServer c net st server key) = Disk st)"
  using assms
  by (simp add: checkSwitchGateServer_def Let_def switchgate_services_eq node_metrics_keeps
      split: sum.splits)

lemma some_service_down_iff:
  "(\<exists>st \<in> set (map (\<lambda>svc. \<lparr>Name_svc = Name_sc svc, Job_svc = [], Port_svc = Port_sc svc,
                               IsUp_svc = (Name_sc svc = n \<longrightarrow> P), Error_svc = []\<rparr>) svcs).
      \<not> IsUp_svc st) \<longleftrightarrow> \<not> P \<and> n \<in> Name_sc ` set svcs"
  by (induction svcs) auto

subsection \<open>The progress bar\<close>









lemma clamps_NaN:
  "(let p1 = (if f64_less NaN (Finite 0) then Finite 0 else NaN)
    in if f64_less (Finite 100) p1 then Finite 100 else p1) = NaN"
  by simp



lemma FormatProgressBar_unfold:
  "FormatProgressBar pl p width =
     (case Repeat pl filled_cell
             (float64_to_int pl
                (f64_mul pl
                   (f64_div100 pl
                      (let p1 = (if f64_less p (Finite 0) then Finite 0 else p)
                       in if f64_less (Finite 100) p1 then Finite 100 else p1))
                   (round64 pl (real_of_int width)))) of
        Inl x \<Rightarrow> Inl x
      | Inr a \<Rightarrow>
          (case Repeat pl empty_cell
                  (wrap64 (width - float64_to_int pl
                     (f64_mul pl
                        (f64_div100 pl
                           (let p1 = (if f64_less p (Finite 0) then Finite 0 else p)
                            in if f64_less (Finite 100) p1 then Finite 100 else p1))
                        (round64 pl (real_of_int width))))) of
             Inl x \<Rightarrow> Inl x
           | Inr b \<Rightarrow> concat_strings pl a b))"
  unfolding FormatProgressBar_def Let_def by (rule refl)








text \<open>
  At NaN both clamps are passed; where the conversion of NaN is negative the first
  \<open>Repeat\<close> panics, whatever the width and the rounding.
\<close>

lemma FormatProgressBar_NaN:
  "int_indefinite pl NaN < 0 \<Longrightarrow>
   FormatProgressBar pl NaN width = Inl ''strings: negative Repeat count''"
  unfolding FormatProgressBar_unfold clamps_NaN
  by (simp add: float64_to_int_def Repeat_def)

text \<open>Outside the widths of claim C8: a negative width, and a bar too long to allocate.\<close>

lemma FormatProgressBar_negative_width:
  "FormatProgressBar ex_platform (Finite 0) (- 1) = Inl ''strings: negative Repeat count''"
  by (simp add: FormatProgressBar_unfold float64_to_int_def wrap64_def Repeat_def
      ex_platform_def filled_cell_def empty_cell_def)

lemma FormatProgressBar_long_width:
  "FormatProgressBar ex_platform (Finite 100) (2 ^ 53) = Inl ''runtime: out of memory''"
  by (simp add: FormatProgressBar_unfold float64_to_int_def wrap64_def Repeat_def
      ex_platform_def filled_cell_def empty_cell_def)

subsection \<open>Positions in configuration order\<close>

lemma flat_index_0: "flat_index clouds 0 j = j"
  by (simp add: flat_index_def)

lemma flat_index_Suc:
  "flat_index (cloud # rest) (Suc i) j = length (Servers cloud) + flat_index rest i j"
  by (simp add: flat_index_def)

lemma flat_index_nth:
  "i < length clouds \<Longrightarrow> j < length (Servers (clouds ! i)) \<Longrightarrow>
   flat_index clouds i j < length (GetAllServers_clouds clouds)
   \<and> GetAllServers_clouds clouds ! flat_index clouds i j = Servers (clouds ! i) ! j
   \<and> cloud_names clouds ! flat_index clouds i j = Name_cloud (clouds ! i)"
proof (induction clouds arbitrary: i)
  case Nil
  then show ?case by simp
next
  case (Cons cloud rest)
  show ?case
  proof (cases i)
    case 0
    then show ?thesis using Cons.prems by (simp add: flat_index_0 nth_append)
  next
    case (Suc k)
    then have "k < length rest" "j < length (Servers (rest ! k))"
      using Cons.prems by simp_all
    from Cons.IH [OF this] show ?thesis
      using Suc by (simp add: flat_index_Suc nth_append)
  qed
qed

lemma prefix_sum_mono:
  "k \<le> k' \<Longrightarrow> sum_list (map f (take k xs)) \<le> (sum_list (map f (take k' xs)) :: nat)"
proof (induction xs arbitrary: k k')
  case Nil
  then show ?case by simp
next
  case (Cons x xs)
  show ?case
  proof (cases k)
    case 0
    then show ?thesis by simp
  next
    case (Suc m)
    then obtain m' where k': "k' = Suc m'" "m \<le> m'"
      using Cons.prems by (cases k') auto
    then show ?thesis using Suc Cons.IH [of m m'] by simp
  qed
qed

lemma flat_index_below_next:
  "i < length clouds \<Longrightarrow> j < length (Servers (clouds ! i)) \<Longrightarrow>
   flat_index clouds i j < flat_index clouds (Suc i) 0"
  by (simp add: flat_index_def take_Suc_conv_app_nth)

lemma flat_index_less_clouds:
  assumes "i < i'" "i < length clouds" "j < length (Servers (clouds ! i))"
  shows "flat_index clouds i j < flat_index clouds i' j'"
proof -
  have "flat_index clouds i j < flat_index clouds (Suc i) 0"
    using assms(2,3) by (rule flat_index_below_next)
  also have "\<dots> \<le> flat_index clouds i' 0"
    using assms(1) by (simp add: flat_index_def prefix_sum_mono)
  also have "\<dots> \<le> flat_index clouds i' j'"
    by (simp add: flat_index_def)
  finally show ?thesis .
qed

lemma flat_index_less_iff:
  assumes "i < length clouds" "j < length (Servers (clouds ! i))"
    "i' < length clouds" "j' < length (Servers (clouds ! i'))"
  shows "flat_index clouds i j < flat_index clouds i' j' \<longleftrightarrow> i < i' \<or> (i = i' \<and> j < j')"
proof -
  consider "i < i'" | "i = i'" | "i' < i" by linarith
  then show ?thesis
  proof cases
    case 1
    then show ?thesis using flat_index_less_clouds [OF 1 assms(1,2), of j'] by simp
  next
    case 2
    then show ?thesis by (simp add: flat_index_def)
  next
    case 3
    then show ?thesis using flat_index_less_clouds [OF 3 assms(3,4), of j] by simp
  qed
qed

lemma map_filter_total:
  "\<forall>x \<in> set xs. f x \<noteq> None \<Longrightarrow> List.map_filter f xs = map (\<lambda>x. the (f x)) xs"
  by (simp add: map_filter_def comp_def)

lemma reachable_cached_IDs:
  assumes "reachable cfg cl c"
  shows "map ID (getCachedStatuses c) =
     (if cache c = [] then [] else map ID_cfg (GetAllServers cfg))"
proof -
  have inv: "checker_inv cfg cl c" using assms by (rule reachable_inv)
  then have cfg: "config c = cfg" by (simp add: checker_inv_def)
  show ?thesis
  proof (cases "cache c = []")
    case True
    then show ?thesis by (simp add: getCachedStatuses_eq map_filter_def)
  next
    case False
    then have tot: "\<forall>s \<in> set (GetAllServers cfg). map_of (cache c) (ID_cfg s) \<noteq> None"
      using inv by (simp add: checker_inv_def)
    have own: "ID (the (map_of (cache c) (ID_cfg s))) = ID_cfg s"
      if sin: "s \<in> set (GetAllServers cfg)" for s
    proof -
      obtain st where "map_of (cache c) (ID_cfg s) = Some st"
        using tot sin by auto
      moreover from this have "ID st = ID_cfg s"
        using inv unfolding checker_inv_def by blast
      ultimately show ?thesis by simp
    qed
    have "getCachedStatuses c = map (\<lambda>s. the (map_of (cache c) (ID_cfg s))) (GetAllServers cfg)"
      unfolding getCachedStatuses_eq cfg using tot by (rule map_filter_total)
    then show ?thesis using False own by simp
  qed
qed

lemma flat_index_icon:
  "i < length clouds \<Longrightarrow> j < length (Servers (clouds ! i)) \<Longrightarrow>
   cloud_icons clouds ! flat_index clouds i j = Icon_cloud (clouds ! i)"
proof (induction clouds arbitrary: i)
  case Nil
  then show ?case by simp
next
  case (Cons cloud rest)
  show ?case
  proof (cases i)
    case 0
    then show ?thesis using Cons.prems by (simp add: flat_index_0 nth_append)
  next
    case (Suc k)
    then have "k < length rest" "j < length (Servers (rest ! k))"
      using Cons.prems by simp_all
    from Cons.IH [OF this] show ?thesis
      using Suc by (simp add: flat_index_Suc nth_append)
  qed
qed

lemma reachable_cached_eq:
  assumes "reachable cfg cl c" and "cache c \<noteq> []"
  shows "getCachedStatuses c =
     map (\<lambda>s. the (map_of (cache c) (ID_cfg s))) (GetAllServers cfg)"
proof -
  have inv: "checker_inv cfg cl c" using assms(1) by (rule reachable_inv)
  then have cfg: "config c = cfg" by (simp add: checker_inv_def)
  have tot: "\<forall>s \<in> set (GetAllServers cfg). map_of (cache c) (ID_cfg s) \<noteq> None"
    using inv assms(2) by (simp add: checker_inv_def)
  show ?thesis
    unfolding getCachedStatuses_eq cfg using tot by (rule map_filter_total)
qed

lemma reachable_cached_CloudName:
  assumes r: "reachable cfg cl c" and ne: "cache c \<noteq> []"
    and d: "distinct (map ID_cfg (GetAllServers cfg))"
    and p: "p < length (GetAllServers cfg)"
  shows "CloudName (getCachedStatuses c ! p) = cloud_names (Clouds cfg) ! p"
proof -
  let ?all = "GetAllServers cfg"
  have inv: "checker_inv cfg cl c" using r by (rule reachable_inv)
  have "map_of (cache c) (ID_cfg (?all ! p)) \<noteq> None"
    using inv ne p by (simp add: checker_inv_def)
  then obtain st where st: "map_of (cache c) (ID_cfg (?all ! p)) = Some st"
    by auto
  then obtain p' where p': "p' < length ?all" "ID_cfg (?all ! p') = ID_cfg (?all ! p)"
    "CloudName st = cloud_names (Clouds cfg) ! p'"
    using inv unfolding checker_inv_def by blast
  have e: "map ID_cfg ?all ! p' = map ID_cfg ?all ! p"
    using p p' by simp
  have "p' < length (map ID_cfg ?all)" "p < length (map ID_cfg ?all)"
    using p p'(1) by simp_all
  then have "p' = p"
    using nth_eq_iff_index_eq [OF d] e by blast
  moreover have "getCachedStatuses c ! p = st"
    using reachable_cached_eq [OF r ne] p st by simp
  ultimately show ?thesis using p'(3) by simp
qed

subsection \<open>Failures recorded in the status\<close>
























section \<open>Claims\<close>

text \<open>
  Claim C1. \<open>GetStatusLevel\<close> is the three-way classification with priority
  Down, Degraded, Up: Down exactly when the server is not up; otherwise Degraded when
  CPU exceeds 80, or memory or disk exceeds 85, or some service is not up; otherwise Up.
  The three levels are different values and no other value is returned.
\<close>

theorem GetStatusLevel_tristate:
  "GetStatusLevel s =
     (if \<not> IsUp s then StatusDown
      else if CPU s > 80 \<or> Memory s > 85 \<or> Disk s > 85
              \<or> (\<exists>svc \<in> set (Services s). \<not> IsUp_svc svc) then StatusDegraded
      else StatusUp)
   \<and> GetStatusLevel s \<in> {StatusDown, StatusDegraded, StatusUp}
   \<and> distinct [StatusDown, StatusDegraded, StatusUp]"
  by (simp add: GetStatusLevel_def services_level_eq StatusUp_def StatusDegraded_def
      StatusDown_def)

theorem GetStatusLevel_tristate_witness:
  "IsUp ex_status_degraded \<and> \<not> CPU ex_status_degraded > 80
   \<and> ex_service_down \<in> set (Services ex_status_degraded) \<and> \<not> IsUp_svc ex_service_down
   \<and> GetStatusLevel ex_status_degraded = StatusDegraded"
  using GetStatusLevel_tristate [of ex_status_degraded]
  by (simp add: ex_status_degraded_def ex_service_down_def)

text \<open>
  Claim C2 (amended). Let the server IDs of the configuration be pairwise different. If a
  \<open>CheckAll\<close> call on a reachable checker finds the cache invalid, it refreshes: it
  checks every configured server, in order. If the cache it leaves is not empty, then a
  second \<open>CheckAll\<close> starting less than 60 seconds after the time stamp of that refresh
  returns the same list in the same order and leaves the checker as it is, so that no
  server is checked. \<open>CheckAllForce\<close> on that checker, whatever the age of the cache,
  returns no error, checks every configured server in order and sets the time stamp.
\<close>

theorem CheckAll_idempotent_within_TTL:
  assumes "reachable cfg cl c"
    and "distinct (map ID_cfg (GetAllServers cfg))"
    and "\<not> isCacheValid c now1"
    and "CheckAll c w1 now1 fin1 = (r1, c1)"
    and "cache c1 \<noteq> []"
    and "now2 - fin1 < 60 * Second"
  shows "CheckAll c1 w2 now2 fin2 = (r1, c1)
    \<and> probes c1 = probes c @ map ID_cfg (GetAllServers cfg)
    \<and> (\<exists>new. fst (CheckAllForce c1 w3 fin3) = Inr new)
    \<and> probes (snd (CheckAllForce c1 w3 fin3)) = probes c1 @ map ID_cfg (GetAllServers cfg)
    \<and> cacheTime (snd (CheckAllForce c1 w3 fin3)) = fin3"
proof -
  have inv: "checker_inv cfg cl c" using assms(1) by (rule reachable_inv)
  have cfg: "config c = cfg" and ttl: "cacheTTL c = DefaultCacheTTL"
    using inv by (simp_all add: checker_inv_def)
  have ra: "refreshAll c w1 fin1 = (r1, c1)"
    using assms(3,4) by (simp add: CheckAll_def)
  have inv1: "checker_inv cfg cl c1"
    using checker_inv_refreshAll [OF inv, of w1 fin1] ra by simp
  have cfg1: "config c1 = cfg" and ttl1: "cacheTTL c1 = DefaultCacheTTL"
    using inv1 by (simp_all add: checker_inv_def)
  have t1: "cacheTime c1 = fin1" and p1: "probes c1 = probes c @ map ID_cfg (GetAllServers cfg)"
    using refreshAll_probes [of c w1 fin1] ra cfg by simp_all
  have r1: "r1 = Inr (getCachedStatuses c1)"
    using refreshAll_then_cached [of c w1 fin1 r1 c1] assms(2) ra cfg by simp
  have "Since now2 (cacheTime c1) < cacheTTL c1"
    unfolding t1 ttl1 DefaultCacheTTL_def
    by (rule Since_less) (use assms(6) in \<open>simp_all add: Second_def maxDuration_def minDuration_def\<close>)
  then have "isCacheValid c1 now2"
    using assms(5) by (simp add: isCacheValid_def)
  then have "CheckAll c1 w2 now2 fin2 = (r1, c1)"
    by (simp add: CheckAll_def r1)
  then show ?thesis
    using p1 refreshAll_probes [of c1 w3 fin3] cfg1 by (simp add: CheckAllForce_def)
qed

theorem CheckAll_idempotent_within_TTL_witness:
  "CheckAll (snd ex_first) ex_world_down 300 400 = ex_first
   \<and> cache (snd ex_first) \<noteq> [] \<and> (300 :: int) - 200 < 60 * Second
   \<and> probes (snd (CheckAllForce (snd ex_first) ex_world_down 500)) =
       [''edge-gateway'', ''vps'', ''edge-gateway'', ''vps'']"
proof -
  have 1: "reachable ex_config [(''primary'', ex_client)] ex_checker"
    unfolding ex_checker_def by (rule reach_New)
  have 2: "distinct (map ID_cfg (GetAllServers ex_config))"
    by (simp add: ex_defs eval_defs)
  have 3: "\<not> isCacheValid ex_checker 100"
    by (simp add: ex_defs eval_defs)
  have 4: "CheckAll ex_checker ex_world_down 100 200 = (fst ex_first, snd ex_first)"
    by (simp add: ex_first_def)
  have 5: "cache (snd ex_first) \<noteq> []"
    by (simp add: ex_defs eval_defs)
  have 6: "(300 :: int) - 200 < 60 * Second"
    by (simp add: Second_def)
  have 7: "probes ex_checker = []" "GetAllServers ex_config = [ex_gateway, ex_vps]"
    by (simp_all add: ex_defs eval_defs)
  show ?thesis
    using CheckAll_idempotent_within_TTL [OF 1 2 3 4 5 6, of ex_world_down 400 ex_world_down 500] 5 6 7
    by (simp add: ex_gateway_def ex_vps_def)
qed

text \<open>
  Claim C2 as stated fails when two configured servers share an ID: the refresh returns one
  status per configured server, each with its own cloud, and the cache, keyed by ID, keeps
  the later one only, which the second call returns at both positions.
\<close>

theorem CheckAll_duplicate_ID_counterexample:
  "\<not> isCacheValid (NewChecker dup_config []) 100
   \<and> cache (snd dup_first) \<noteq> []
   \<and> (300 :: int) - cacheTime (snd dup_first) < 60 * Second
   \<and> map CloudName (projr (fst dup_first)) = [''Production'', ''Staging'']
   \<and> map CloudName (projr (fst (CheckAll (snd dup_first) ex_world_down 300 400))) =
       [''Staging'', ''Staging'']"
  by (simp add: ex_defs eval_defs)

text \<open>
  Claim C3 (amended). Every per-server check of a refresh (\<open>CheckAllForce\<close>, or
  \<open>CheckAll\<close> on an invalid cache) writes its status into the cache under the ID of
  the server, replacing the entry under that ID: after the refresh the cache is the old
  cache overwritten by the returned statuses in their order, so every returned status has
  an entry under its ID, which is that very status when the configured IDs are pairwise
  different. \<open>CheckServerForce\<close> and \<open>CheckServer\<close> return the status they fetch and
  leave the cache and its time stamp as they were.
\<close>

theorem refresh_writes_cache:
  "(\<exists>new c'. refreshAll c w fin = (Inr new, c')
       \<and> map ID new = map ID_cfg (GetAllServers (config c))
       \<and> map_of (cache c') = map_of (cache c) ++ map_of (rev (map (\<lambda>st. (ID st, st)) new))
       \<and> (\<forall>st \<in> set new. \<exists>st' \<in> set new. ID st' = ID st \<and> map_of (cache c') (ID st) = Some st')
       \<and> (distinct (map ID_cfg (GetAllServers (config c))) \<longrightarrow>
            (\<forall>st \<in> set new. map_of (cache c') (ID st) = Some st)))
   \<and> CheckAllForce c w fin = refreshAll c w fin
   \<and> (\<not> isCacheValid c now \<longrightarrow> CheckAll c w now fin = refreshAll c w fin)
   \<and> cache (snd (CheckServerForce c w k)) = cache c
   \<and> cacheTime (snd (CheckServerForce c w k)) = cacheTime c
   \<and> cache (snd (CheckServer c w now k)) = cache c
   \<and> cacheTime (snd (CheckServer c w now k)) = cacheTime c"
proof -
  obtain new c' where r: "refreshAll c w fin = (Inr new, c'\<lparr>cacheTime := fin\<rparr>)"
    and e: "refresh_effect c new c'"
    and i: "map ID new = map ID_cfg (GetAllServers (config c))"
    using refreshAll_effect by blast
  let ?M = "map_of (rev (map (\<lambda>st. (ID st, st)) new))"
  have m: "map_of (cache (c'\<lparr>cacheTime := fin\<rparr>)) = map_of (cache c) ++ ?M"
    using e by (simp add: refresh_effect_def)
  have a: "\<forall>st \<in> set new. \<exists>st' \<in> set new. ID st' = ID st
             \<and> map_of (cache (c'\<lparr>cacheTime := fin\<rparr>)) (ID st) = Some st'"
  proof
    fix st assume "st \<in> set new"
    then obtain st' where s: "?M (ID st) = Some st'"
      using map_of_by_ID_dom [of "ID st" new] by blast
    then have "ID st' = ID st \<and> st' \<in> set new" by (rule map_of_by_ID)
    moreover have "map_of (cache (c'\<lparr>cacheTime := fin\<rparr>)) (ID st) = Some st'"
      unfolding m using s by (simp add: map_add_find_right)
    ultimately show "\<exists>st' \<in> set new. ID st' = ID st
             \<and> map_of (cache (c'\<lparr>cacheTime := fin\<rparr>)) (ID st) = Some st'"
      by blast
  qed
  have b: "distinct (map ID_cfg (GetAllServers (config c))) \<longrightarrow>
            (\<forall>st \<in> set new. map_of (cache (c'\<lparr>cacheTime := fin\<rparr>)) (ID st) = Some st)"
  proof (intro impI ballI)
    fix st assume "distinct (map ID_cfg (GetAllServers (config c)))" "st \<in> set new"
    then have "?M (ID st) = Some st"
      using map_of_by_ID_distinct [of new st] i by simp
    then show "map_of (cache (c'\<lparr>cacheTime := fin\<rparr>)) (ID st) = Some st"
      unfolding m by (simp add: map_add_find_right)
  qed
  have 1: "\<exists>new c'. refreshAll c w fin = (Inr new, c')
       \<and> map ID new = map ID_cfg (GetAllServers (config c))
       \<and> map_of (cache c') = map_of (cache c) ++ map_of (rev (map (\<lambda>st. (ID st, st)) new))
       \<and> (\<forall>st \<in> set new. \<exists>st' \<in> set new. ID st' = ID st \<and> map_of (cache c') (ID st) = Some st')
       \<and> (distinct (map ID_cfg (GetAllServers (config c))) \<longrightarrow>
            (\<forall>st \<in> set new. map_of (cache c') (ID st) = Some st))"
    using r i m a b by blast
  have 2: "cache (snd (CheckServerForce c w k)) = cache c
     \<and> cacheTime (snd (CheckServerForce c w k)) = cacheTime c"
    by (simp add: CheckServerForce_def checkServerForce_state split: option.splits)
  show ?thesis
    using 1 2 CheckServer_state [of c w now k] by (simp add: CheckAllForce_def CheckAll_def)
qed

theorem refresh_writes_cache_witness:
  "distinct (map ID_cfg (GetAllServers (config ex_checker)))
   \<and> \<not> isCacheValid ex_checker 100
   \<and> map (map_of (cache (snd ex_first))) [''edge-gateway'', ''vps''] = map Some (projr (fst ex_first))
   \<and> cache (snd (CheckServer ex_checker ex_world_down 100 ''vps'')) = []"
proof -
  have d: "distinct (map ID_cfg (GetAllServers (config ex_checker)))"
    and v: "\<not> isCacheValid ex_checker 100"
    and e: "cache ex_checker = []"
    and g: "GetAllServers (config ex_checker) = [ex_gateway, ex_vps]"
    by (simp_all add: ex_defs eval_defs)
  from refresh_writes_cache [of ex_checker ex_world_down 200 100 "''vps''"] d v
  obtain new c' where r: "refreshAll ex_checker ex_world_down 200 = (Inr new, c')"
    and i: "map ID new = map ID_cfg (GetAllServers (config ex_checker))"
    and s: "\<forall>st \<in> set new. map_of (cache c') (ID st) = Some st"
    and f: "CheckAll ex_checker ex_world_down 100 200 = refreshAll ex_checker ex_world_down 200"
    and k: "cache (snd (CheckServer ex_checker ex_world_down 100 ''vps'')) = cache ex_checker"
    by blast
  have x: "ex_first = (Inr new, c')" using r f by (simp add: ex_first_def)
  have "map ID new = [''edge-gateway'', ''vps'']"
    using i g by (simp add: ex_gateway_def ex_vps_def)
  then obtain a b where n: "new = [a, b]" "ID a = ''edge-gateway''" "ID b = ''vps''"
    by auto
  then have "map (map_of (cache c')) [''edge-gateway'', ''vps''] = map Some new"
    using s by auto
  then show ?thesis unfolding x using d v k e by simp
qed

text \<open>
  Claim C3 as stated fails: on a new checker \<open>CheckServerForce\<close> returns the status of
  a configured server and the cache has no entry under its ID afterwards; so does
  \<open>CheckServer\<close> when the cache is not valid.
\<close>

theorem CheckServerForce_no_cache_write_counterexample:
  "\<not> isl (fst (CheckServerForce ex_checker ex_world_down ''vps''))
   \<and> ID (projr (fst (CheckServerForce ex_checker ex_world_down ''vps''))) = ''vps''
   \<and> map_of (cache (snd (CheckServerForce ex_checker ex_world_down ''vps''))) ''vps'' = None
   \<and> \<not> isCacheValid ex_checker 100
   \<and> \<not> isl (fst (CheckServer ex_checker ex_world_down 100 ''vps''))
   \<and> map_of (cache (snd (CheckServer ex_checker ex_world_down 100 ''vps''))) ''vps'' = None"
  by (simp add: ex_defs eval_defs)



text \<open>
  Claim C7. After \<open>InvalidateCache\<close> the cache is empty and its time stamp is the zero
  time, and the next \<open>CheckAll\<close> is a refresh, which checks every configured server in
  order. A checker whose cache is empty never has a valid cache, whatever its time stamp
  and whatever the clock reads.
\<close>

theorem InvalidateCache_forces_refresh:
  "cache (InvalidateCache c) = [] \<and> cacheTime (InvalidateCache c) = 0
   \<and> CheckAll (InvalidateCache c) w now fin = refreshAll (InvalidateCache c) w fin
   \<and> probes (snd (CheckAll (InvalidateCache c) w now fin)) =
       probes c @ map ID_cfg (GetAllServers (config c))
   \<and> (cache c' = [] \<longrightarrow> \<not> isCacheValid c' now')"
proof -
  have "\<not> isCacheValid (InvalidateCache c) now"
    by (simp add: isCacheValid_def InvalidateCache_def)
  then have "CheckAll (InvalidateCache c) w now fin = refreshAll (InvalidateCache c) w fin"
    by (simp add: CheckAll_def)
  then show ?thesis
    using refreshAll_probes [of "InvalidateCache c" w fin]
    by (simp add: InvalidateCache_def isCacheValid_def)
qed

theorem InvalidateCache_forces_refresh_witness:
  "isCacheValid (snd ex_first) 300
   \<and> cache (InvalidateCache (snd ex_first)) = []
   \<and> \<not> isCacheValid (InvalidateCache (snd ex_first)) 300
   \<and> probes (snd (CheckAll (InvalidateCache (snd ex_first)) ex_world_down 300 400)) =
       [''edge-gateway'', ''vps'', ''edge-gateway'', ''vps'']"
proof -
  have v: "isCacheValid (snd ex_first) 300"
    and p: "probes (snd ex_first) = [''edge-gateway'', ''vps'']"
    and g: "map ID_cfg (GetAllServers (config (snd ex_first))) = [''edge-gateway'', ''vps'']"
    by (simp_all add: ex_defs eval_defs)
  note t = InvalidateCache_forces_refresh [of "snd ex_first" ex_world_down 300 400
      "InvalidateCache (snd ex_first)" 300]
  have a: "cache (InvalidateCache (snd ex_first)) = []"
    using t by blast
  have b: "\<not> isCacheValid (InvalidateCache (snd ex_first)) 300"
    using t by blast
  have c: "probes (snd (CheckAll (InvalidateCache (snd ex_first)) ex_world_down 300 400)) =
      probes (snd ex_first) @ map ID_cfg (GetAllServers (config (snd ex_first)))"
    using t by blast
  show ?thesis using v a b c p g by simp
qed

text \<open>
  Claim C10. If the cache is valid and has no entry for the requested ID, \<open>CheckServer\<close>
  is \<open>checkServerForce\<close> on that ID: it fails exactly when no configured server has
  the ID, and otherwise checks the configured server found by \<open>GetServer\<close>, once, and
  returns the status of that check, whose ID is the requested one.
\<close>

theorem CheckServer_cache_miss_falls_through:
  assumes "isCacheValid c now" and "map_of (cache c) k = None"
  shows "CheckServer c w now k = checkServerForce c w k
    \<and> (isl (fst (CheckServer c w now k)) \<longleftrightarrow> GetServer (config c) k = None)
    \<and> (GetServer (config c) k = None \<longleftrightarrow> k \<notin> ID_cfg ` set (GetAllServers (config c)))
    \<and> (GetServer (config c) k = None \<longrightarrow> snd (CheckServer c w now k) = c)
    \<and> (\<forall>s. GetServer (config c) k = Some s \<longrightarrow>
          ID_cfg s = k \<and> s \<in> set (GetAllServers (config c))
          \<and> fst (CheckServer c w now k) =
              Inr (probe_server c (w (length (probes c))) s (GetServerCloud (config c) k)
                     (cloudIcon_loop (Clouds (config c)) (GetServerCloud (config c) k)
                        default_cloudIcon))
          \<and> ID (projr (fst (CheckServer c w now k))) = k
          \<and> snd (CheckServer c w now k) = c\<lparr>probes := probes c @ [k]\<rparr>)"
proof -
  have eq: "CheckServer c w now k = checkServerForce c w k"
    using assms by (simp add: CheckServer_def)
  show ?thesis
  proof (cases "GetServer (config c) k")
    case None
    then show ?thesis
      unfolding eq
      by (simp add: checkServerForce_isl checkServerForce_state GetServer_None [symmetric])
  next
    case (Some s)
    have "ID_cfg s = k \<and> s \<in> set (GetAllServers (config c))"
      using Some by (rule GetServer_Some)
    then show ?thesis
      unfolding eq using Some
      by (simp add: checkServerForce_isl checkServerForce_result checkServerForce_state
          GetServer_None [symmetric] probe_server_ID)
  qed
qed

theorem CheckServer_cache_miss_falls_through_witness:
  "isCacheValid ex_partial 300 \<and> map_of (cache ex_partial) ''vps'' = None
   \<and> map_of (cache ex_partial) ''database'' = None
   \<and> isl (fst (CheckServer ex_partial ex_world_down 300 ''database''))
   \<and> GetServer (config ex_partial) ''vps'' = Some ex_vps
   \<and> ID (projr (fst (CheckServer ex_partial ex_world_down 300 ''vps''))) = ''vps''
   \<and> probes (snd (CheckServer ex_partial ex_world_down 300 ''vps'')) = [''vps'']"
proof -
  have v: "isCacheValid ex_partial 300"
    and m: "map_of (cache ex_partial) ''vps'' = None" "map_of (cache ex_partial) ''database'' = None"
    and g: "GetServer (config ex_partial) ''vps'' = Some ex_vps"
      "GetServer (config ex_partial) ''database'' = None"
    and p: "probes ex_partial = []"
    by (simp_all add: ex_partial_def ex_defs eval_defs)
  have a: "isl (fst (CheckServer ex_partial ex_world_down 300 ''database''))"
    using CheckServer_cache_miss_falls_through [OF v m(2), of ex_world_down] g(2) by blast
  have b: "ID (projr (fst (CheckServer ex_partial ex_world_down 300 ''vps''))) = ''vps''
    \<and> snd (CheckServer ex_partial ex_world_down 300 ''vps'') =
        ex_partial\<lparr>probes := probes ex_partial @ [''vps'']\<rparr>"
    using CheckServer_cache_miss_falls_through [OF v m(1), of ex_world_down] g(1) by blast
  show ?thesis using a b v m g p by simp
qed

text \<open>
  Claim C5 (amended). Take a server on the switch-gate path: \<open>GetUpstreamByIP\<close> gives
  a non-empty key for its address and \<open>IsSwitchGateServer\<close> holds of it. If a client
  exists under that key and its \<open>GetStatus\<close> fails, in whichever way, then the status has
  \<open>IsUp\<close> false, exactly one service entry, named \<open>switch-gate\<close>, not up, whose error
  text is the text of the failure, which is not empty, and its level is Down. If no client
  exists under the key, the status has \<open>IsUp\<close> false, no service entry, and level Down.
\<close>

theorem switchgate_fetch_failure_marks_down:
  assumes "GetUpstreamByIP (config c) (IP_cfg server) = key" and "key \<noteq> []"
    and "IsSwitchGateServer (config c) (IP_cfg server)"
  shows "(map_of (switchGateClients c) key = Some sgClient \<and> GetStatus net sgClient = Inl err \<longrightarrow>
            \<not> IsUp (probe_server c net server cn ci)
            \<and> Services (probe_server c net server cn ci) =
                [\<lparr>Name_svc = ''switch-gate'', Job_svc = [], Port_svc = 9090, IsUp_svc = False,
                  Error_svc = err\<rparr>]
            \<and> err \<noteq> []
            \<and> GetStatusLevel (probe_server c net server cn ci) = StatusDown)
    \<and> (map_of (switchGateClients c) key = None \<longrightarrow>
            \<not> IsUp (probe_server c net server cn ci)
            \<and> Services (probe_server c net server cn ci) = []
            \<and> GetStatusLevel (probe_server c net server cn ci) = StatusDown)"
proof -
  note p = probe_server_switchgate [OF assms, of net cn ci]
  have a: "\<not> IsUp (probe_server c net server cn ci)
      \<and> Services (probe_server c net server cn ci) =
          [\<lparr>Name_svc = ''switch-gate'', Job_svc = [], Port_svc = 9090, IsUp_svc = False,
            Error_svc = err\<rparr>]
      \<and> err \<noteq> []"
    if "map_of (switchGateClients c) key = Some sgClient" "GetStatus net sgClient = Inl err"
    using p that GetStatus_error_nonempty [OF that(2)]
    by (simp add: checkSwitchGateServer_failed [OF that] new_status_def)
  have b: "\<not> IsUp (probe_server c net server cn ci)
      \<and> Services (probe_server c net server cn ci) = []"
    if "map_of (switchGateClients c) key = None"
    using p that by (simp add: checkSwitchGateServer_no_client new_status_def)
  have d: "\<not> IsUp s \<Longrightarrow> GetStatusLevel s = StatusDown" for s
    by (simp add: GetStatusLevel_def)
  show ?thesis using a b d by blast
qed

theorem switchgate_fetch_failure_marks_down_witness:
  "GetUpstreamByIP (config ex_checker) (IP_cfg ex_vps) = ''primary''
   \<and> IsSwitchGateServer (config ex_checker) (IP_cfg ex_vps)
   \<and> map_of (switchGateClients ex_checker) ''primary'' = Some ex_client
   \<and> GetStatus ex_net_down ex_client = Inl ''dial jump host: i/o timeout''
   \<and> Services (probe_server ex_checker ex_net_down ex_vps ''VPS'' []) =
       [\<lparr>Name_svc = ''switch-gate'', Job_svc = [], Port_svc = 9090, IsUp_svc = False,
         Error_svc = ''dial jump host: i/o timeout''\<rparr>]
   \<and> GetStatusLevel (probe_server ex_checker ex_net_down ex_vps ''VPS'' []) = StatusDown"
proof -
  have k: "GetUpstreamByIP (config ex_checker) (IP_cfg ex_vps) = ''primary''"
    and n: "''primary'' \<noteq> []"
    and s: "IsSwitchGateServer (config ex_checker) (IP_cfg ex_vps)"
    and m: "map_of (switchGateClients ex_checker) ''primary'' = Some ex_client"
    and g: "GetStatus ex_net_down ex_client = Inl ''dial jump host: i/o timeout''"
    by (simp_all add: ex_defs eval_defs)
  show ?thesis
    using switchgate_fetch_failure_marks_down [OF k n s, of ex_client ex_net_down
        "''dial jump host: i/o timeout''" "''VPS''" "[]"] k s m g
    by blast
qed

text \<open>
  Claim C5 as stated fails when no client exists for the upstream of the server: the
  server is marked down and gets no service entry at all.
\<close>

theorem switchgate_no_client_counterexample:
  "GetUpstreamByIP (config (NewChecker ex_config [])) (IP_cfg ex_vps) = ''primary''
   \<and> IsSwitchGateServer (config (NewChecker ex_config [])) (IP_cfg ex_vps)
   \<and> map_of (switchGateClients (NewChecker ex_config [])) ''primary'' = None
   \<and> \<not> IsUp (probe_server (NewChecker ex_config []) ex_net_down ex_vps ''VPS'' [])
   \<and> Services (probe_server (NewChecker ex_config []) ex_net_down ex_vps ''VPS'' []) = []"
  by (simp add: ex_defs eval_defs)

text \<open>
  Claim C9. Take a server on the switch-gate path whose client exists and whose
  \<open>GetStatus\<close> succeeds. The server is up, and its service entries are those declared,
  in order, each up, except that a service named \<open>node_exporter\<close> is up exactly when
  the \<open>Memory\<close> of the status is positive. If \<open>GetNodeMetrics\<close> fails, \<open>Memory\<close> is 0,
  so the level is Degraded when \<open>node_exporter\<close> is declared, and Up when it is not.
\<close>

theorem switchgate_services_up_unless_node_exporter:
  assumes "GetUpstreamByIP (config c) (IP_cfg server) = key" and "key \<noteq> []"
    and "IsSwitchGateServer (config c) (IP_cfg server)"
    and "map_of (switchGateClients c) key = Some sgClient"
    and "GetStatus net sgClient = Inr sgStatus"
  shows "IsUp (probe_server c net server cn ci)
    \<and> Services (probe_server c net server cn ci) =
        map (\<lambda>svc. \<lparr>Name_svc = Name_sc svc, Job_svc = [], Port_svc = Port_sc svc,
                     IsUp_svc = (Name_sc svc = ''node_exporter'' \<longrightarrow>
                        0 < Memory (probe_server c net server cn ci)),
                     Error_svc = []\<rparr>) (Services_cfg server)
    \<and> (\<forall>e. GetNodeMetrics net sgClient = Inl e \<longrightarrow>
          Memory (probe_server c net server cn ci) = 0
          \<and> (''node_exporter'' \<in> Name_sc ` set (Services_cfg server) \<longrightarrow>
                GetStatusLevel (probe_server c net server cn ci) = StatusDegraded)
          \<and> (''node_exporter'' \<notin> Name_sc ` set (Services_cfg server) \<longrightarrow>
                GetStatusLevel (probe_server c net server cn ci) = StatusUp))"
proof -
  let ?st = "probe_server c net server cn ci"
  note p = probe_server_switchgate [OF assms(1-3), of net cn ci]
  note k = checkSwitchGateServer_ok [OF assms(4,5), of "new_status server cn ci" server]
  have up: "IsUp ?st" using p k by simp
  have sv: "Services ?st =
        map (\<lambda>svc. \<lparr>Name_svc = Name_sc svc, Job_svc = [], Port_svc = Port_sc svc,
                     IsUp_svc = (Name_sc svc = ''node_exporter'' \<longrightarrow> 0 < Memory ?st),
                     Error_svc = []\<rparr>) (Services_cfg server)"
    using p k by (simp add: new_status_def)
  have z: "Memory ?st = 0 \<and> CPU ?st = 0 \<and> Disk ?st = 0"
    if "GetNodeMetrics net sgClient = Inl e" for e
    using p k that by (simp add: new_status_def)
  have lv: "GetStatusLevel ?st =
      (if ''node_exporter'' \<in> Name_sc ` set (Services_cfg server) then StatusDegraded
       else StatusUp)"
    if "GetNodeMetrics net sgClient = Inl e" for e
  proof -
    have "(\<exists>svc \<in> set (Services ?st). \<not> IsUp_svc svc) \<longleftrightarrow>
        ''node_exporter'' \<in> Name_sc ` set (Services_cfg server)"
      using z [OF that] by (subst sv) (simp only: some_service_down_iff, simp)
    then show ?thesis
      using up z [OF that] by (simp add: GetStatusLevel_eq)
  qed
  show ?thesis using up sv z lv by auto
qed

theorem switchgate_services_up_unless_node_exporter_witness:
  "GetUpstreamByIP (config ex_checker) (IP_cfg ex_vps) = ''primary''
   \<and> IsSwitchGateServer (config ex_checker) (IP_cfg ex_vps)
   \<and> map_of (switchGateClients ex_checker) ''primary'' = Some ex_client
   \<and> \<not> isl (GetStatus ex_net_agent ex_client)
   \<and> isl (GetNodeMetrics ex_net_agent ex_client)
   \<and> IsUp (probe_server ex_checker ex_net_agent ex_vps ''VPS'' [])
   \<and> map IsUp_svc (Services (probe_server ex_checker ex_net_agent ex_vps ''VPS'' [])) =
       [True, False]
   \<and> GetStatusLevel (probe_server ex_checker ex_net_agent ex_vps ''VPS'' []) = StatusDegraded"
proof -
  have k: "GetUpstreamByIP (config ex_checker) (IP_cfg ex_vps) = ''primary''"
    and n: "''primary'' \<noteq> []"
    and s: "IsSwitchGateServer (config ex_checker) (IP_cfg ex_vps)"
    and m: "map_of (switchGateClients ex_checker) ''primary'' = Some ex_client"
    and g: "GetStatus ex_net_agent ex_client =
        Inr \<lparr>Mode = ''direct'', Uptime_sg = ''2h'', Connections = 3\<rparr>"
    and f: "GetNodeMetrics ex_net_agent ex_client = Inl ''dial jump host: i/o timeout''"
    and d: "Services_cfg ex_vps =
        [\<lparr>Name_sc = ''switch-gate'', Job_sc = [], Port_sc = 9090\<rparr>,
         \<lparr>Name_sc = ''node_exporter'', Job_sc = [], Port_sc = 9100\<rparr>]"
    by (simp_all add: ex_net_agent_def ex_defs eval_defs)
  note t = switchgate_services_up_unless_node_exporter [OF k n s m g, of "''VPS''" "[]"]
  have 1: "IsUp (probe_server ex_checker ex_net_agent ex_vps ''VPS'' [])"
    using t by blast
  have 2: "Memory (probe_server ex_checker ex_net_agent ex_vps ''VPS'' []) = 0"
    using t f by blast
  have 3: "GetStatusLevel (probe_server ex_checker ex_net_agent ex_vps ''VPS'' []) = StatusDegraded"
    using t f d by simp
  have 4: "map IsUp_svc (Services (probe_server ex_checker ex_net_agent ex_vps ''VPS'' [])) =
       [True, False]"
    using t 2 d by simp
  show ?thesis using k s m g f 1 3 4 by simp
qed




text \<open>
  Claim C6 (amended). Number the clouds of the configuration and the servers of each cloud
  in the order of their declaration, and let the position of server \<open>j\<close> of cloud \<open>i\<close>
  be the number of servers declared in clouds before \<open>i\<close> plus \<open>j\<close>. One position is
  before another exactly when its cloud is declared before the other's, or the clouds are
  the same and its server is declared before the other's. On a reachable checker, the list
  returned by a refresh has one status for every configured server, and at the position of
  a server stands the status of the check of that server, with its ID and the name of its
  cloud. The cache read returns the cached statuses of the configured servers in the order
  of \<open>GetAllServers\<close>, skipping servers without an entry: nothing when the cache is
  empty, and otherwise one status for every configured server, with the ID of a server at
  the position of that server. When the configured IDs are pairwise different, the status
  at the position of a server also has the name of the cloud of that server.
\<close>

theorem results_in_configuration_order:
  assumes "reachable cfg cl c"
    and "i < length (Clouds cfg)" and "j < length (Servers (Clouds cfg ! i))"
    and "i' < length (Clouds cfg)" and "j' < length (Servers (Clouds cfg ! i'))"
  shows "(flat_index (Clouds cfg) i j < flat_index (Clouds cfg) i' j'
            \<longleftrightarrow> i < i' \<or> (i = i' \<and> j < j'))
    \<and> GetAllServers cfg ! flat_index (Clouds cfg) i j = Servers (Clouds cfg ! i) ! j
    \<and> (\<exists>new. fst (refreshAll c w fin) = Inr new
          \<and> length new = length (GetAllServers cfg)
          \<and> flat_index (Clouds cfg) i j < length new
          \<and> new ! flat_index (Clouds cfg) i j =
              probe_server c (w (length (probes c) + flat_index (Clouds cfg) i j))
                (Servers (Clouds cfg ! i) ! j) (Name_cloud (Clouds cfg ! i))
                (Icon_cloud (Clouds cfg ! i))
          \<and> ID (new ! flat_index (Clouds cfg) i j) = ID_cfg (Servers (Clouds cfg ! i) ! j)
          \<and> CloudName (new ! flat_index (Clouds cfg) i j) = Name_cloud (Clouds cfg ! i))
    \<and> getCachedStatuses c =
        List.map_filter (\<lambda>s. map_of (cache c) (ID_cfg s)) (GetAllServers cfg)
    \<and> (cache c = [] \<longrightarrow> getCachedStatuses c = [])
    \<and> (cache c \<noteq> [] \<longrightarrow>
          length (getCachedStatuses c) = length (GetAllServers cfg)
          \<and> ID (getCachedStatuses c ! flat_index (Clouds cfg) i j) =
              ID_cfg (Servers (Clouds cfg ! i) ! j))
    \<and> (cache c \<noteq> [] \<and> distinct (map ID_cfg (GetAllServers cfg)) \<longrightarrow>
          CloudName (getCachedStatuses c ! flat_index (Clouds cfg) i j) =
              Name_cloud (Clouds cfg ! i))"
proof -
  let ?p = "flat_index (Clouds cfg) i j"
  let ?all = "GetAllServers cfg"
  have inv: "checker_inv cfg cl c" using assms(1) by (rule reachable_inv)
  then have cfg: "config c = cfg" by (simp add: checker_inv_def)
  note pos = flat_index_nth [OF assms(2,3)]
  have p: "?p < length ?all" and at: "?all ! ?p = Servers (Clouds cfg ! i) ! j"
    and nm: "cloud_names (Clouds cfg) ! ?p = Name_cloud (Clouds cfg ! i)"
    using pos by (simp_all add: GetAllServers_def)
  have ic: "cloud_icons (Clouds cfg) ! ?p = Icon_cloud (Clouds cfg ! i)"
    using assms(2,3) by (rule flat_index_icon)
  have 1: "?p < flat_index (Clouds cfg) i' j' \<longleftrightarrow> i < i' \<or> (i = i' \<and> j < j')"
    using assms(2-5) by (rule flat_index_less_iff)
  obtain new c' where r: "refreshAll c w fin = (Inr new, c'\<lparr>cacheTime := fin\<rparr>)"
    and ids: "map ID new = map ID_cfg ?all"
    and cns: "map CloudName new = cloud_names (Clouds cfg)"
    and nth: "\<forall>p < length ?all.
        new ! p = probe_server c (w (length (probes c) + p)) (?all ! p)
                    (cloud_names (Clouds cfg) ! p) (cloud_icons (Clouds cfg) ! p)"
    using refreshAll_effect [of c w fin] unfolding cfg by blast
  have len: "length new = length ?all"
    using ids by (metis length_map)
  have pr: "new ! ?p = probe_server c (w (length (probes c) + ?p))
                (Servers (Clouds cfg ! i) ! j) (Name_cloud (Clouds cfg ! i))
                (Icon_cloud (Clouds cfg ! i))"
    using nth p at nm ic by simp
  have 2: "\<exists>new. fst (refreshAll c w fin) = Inr new
          \<and> length new = length ?all \<and> ?p < length new
          \<and> new ! ?p = probe_server c (w (length (probes c) + ?p))
                (Servers (Clouds cfg ! i) ! j) (Name_cloud (Clouds cfg ! i))
                (Icon_cloud (Clouds cfg ! i))
          \<and> ID (new ! ?p) = ID_cfg (Servers (Clouds cfg ! i) ! j)
          \<and> CloudName (new ! ?p) = Name_cloud (Clouds cfg ! i)"
    using r len p pr by (simp add: probe_server_ID probe_server_CloudName)
  have 3: "getCachedStatuses c = List.map_filter (\<lambda>s. map_of (cache c) (ID_cfg s)) ?all"
    using cfg by (simp add: getCachedStatuses_eq)
  have 4: "getCachedStatuses c = []" if "cache c = []"
    using that 3 by (simp add: map_filter_def)
  have 5: "length (getCachedStatuses c) = length ?all
      \<and> ID (getCachedStatuses c ! ?p) = ID_cfg (Servers (Clouds cfg ! i) ! j)"
    if ne: "cache c \<noteq> []"
  proof -
    have m: "map ID (getCachedStatuses c) = map ID_cfg ?all"
      using reachable_cached_IDs [OF assms(1)] ne by simp
    then have l: "length (getCachedStatuses c) = length ?all"
      by (metis length_map)
    have "ID (getCachedStatuses c ! ?p) = map ID (getCachedStatuses c) ! ?p"
      using p l by simp
    then show ?thesis using m l p at by simp
  qed
  have 6: "CloudName (getCachedStatuses c ! ?p) = Name_cloud (Clouds cfg ! i)"
    if "cache c \<noteq> []" "distinct (map ID_cfg ?all)"
    using reachable_cached_CloudName [OF assms(1) that p] nm by simp
  show ?thesis using 1 2 3 4 5 6 at by blast
qed

theorem results_in_configuration_order_witness:
  "reachable ex_config [(''primary'', ex_client)] (snd ex_first)
   \<and> flat_index (Clouds ex_config) 0 0 = 0 \<and> flat_index (Clouds ex_config) 1 0 = 1
   \<and> cache (snd ex_first) \<noteq> []
   \<and> distinct (map ID_cfg (GetAllServers ex_config))
   \<and> map ID (getCachedStatuses (snd ex_first)) = [''edge-gateway'', ''vps'']
   \<and> ID (getCachedStatuses (snd ex_first) ! flat_index (Clouds ex_config) 1 0) = ''vps''
   \<and> CloudName (getCachedStatuses (snd ex_first) ! flat_index (Clouds ex_config) 1 0) = ''VPS''"
proof -
  have "reachable ex_config [(''primary'', ex_client)] ex_checker"
    unfolding ex_checker_def by (rule reach_New)
  then have r: "reachable ex_config [(''primary'', ex_client)] (snd ex_first)"
    unfolding ex_first_def by (rule reach_CheckAll)
  have b: "(1 :: nat) < length (Clouds ex_config)" "0 < length (Servers (Clouds ex_config ! 1))"
    "(0 :: nat) < length (Clouds ex_config)" "0 < length (Servers (Clouds ex_config ! 0))"
    by (simp_all add: ex_defs)
  have f: "flat_index (Clouds ex_config) 0 0 = 0" "flat_index (Clouds ex_config) 1 0 = 1"
    by (simp_all add: flat_index_def ex_defs)
  have n: "cache (snd ex_first) \<noteq> []"
    and d: "distinct (map ID_cfg (GetAllServers ex_config))"
    and m: "map ID (getCachedStatuses (snd ex_first)) = [''edge-gateway'', ''vps'']"
    and s: "ID_cfg (Servers (Clouds ex_config ! 1) ! 0) = ''vps''"
      "Name_cloud (Clouds ex_config ! 1) = ''VPS''"
    by (simp_all add: ex_defs eval_defs)
  note t = results_in_configuration_order [OF r b, of ex_world_down 500]
  have "ID (getCachedStatuses (snd ex_first) ! flat_index (Clouds ex_config) 1 0) =
      ID_cfg (Servers (Clouds ex_config ! 1) ! 0)"
    using t n by blast
  moreover have "CloudName (getCachedStatuses (snd ex_first) ! flat_index (Clouds ex_config) 1 0) =
      Name_cloud (Clouds ex_config ! 1)"
    using t n d by blast
  ultimately show ?thesis using r f n d m s by simp
qed

text \<open>
  Claim C6 as stated fails on the cache read path when two configured servers share an
  ID. With \<open>web\<close> and \<open>db\<close> declared in Production and \<open>web\<close> again in Staging, the
  cache read after a refresh returns, in this order, the status of Staging's \<open>web\<close>, the
  status of Production's \<open>db\<close> and the status of Staging's \<open>web\<close> again: a server of
  the cloud declared second stands before a server of the cloud declared first, and the
  status of Production's \<open>web\<close> is not in the list.
\<close>

theorem cache_read_duplicate_ID_counterexample:
  "map Name_cloud (Clouds dup3_config) = [''Production'', ''Staging'']
   \<and> map (map ID_cfg \<circ> Servers) (Clouds dup3_config) = [[''web'', ''db''], [''web'']]
   \<and> map CloudName (projr (fst dup3_first)) = [''Production'', ''Production'', ''Staging'']
   \<and> isCacheValid (snd dup3_first) 300
   \<and> fst (CheckAll (snd dup3_first) ex_world_down 300 400) =
       Inr (getCachedStatuses (snd dup3_first))
   \<and> map ID (getCachedStatuses (snd dup3_first)) = [''web'', ''db'', ''web'']
   \<and> map CloudName (getCachedStatuses (snd dup3_first)) =
       [''Staging'', ''Production'', ''Staging'']"
  by (simp add: dup3_first_def dup3_config_def dup_db_def ex_defs ex_platform_def eval_defs)

end
